theory Spec2Isabelle
  imports Complex_Main "HOL-Library.Log_Nat" "HOL-Library.Sublist" "HOL-Library.Word"
begin

section \<open>Go values used by the program\<close>

subsection \<open>float64\<close>

text \<open>
  A Go \<open>float64\<close> is an IEEE-754 binary64 number. A finite value is kept as the rational
  it denotes; every arithmetic result is rounded to the nearest representable value, ties
  to even (53 significant bits, least exponent \<open>-1074\<close>, overflow to infinity at
  \<open>2^1024\<close>). The sign of a zero is not kept: the quantities of the pipeline are
  non-negative, so every zero they produce is \<open>+0\<close>.
\<close>

datatype float64 = Fin rat | PInf | NInf | NaN

definition pow2 :: "int \<Rightarrow> rat" where
  "pow2 p = (if 0 \<le> p then 2 ^ nat p else 1 / 2 ^ nat (- p))"

definition ilog2 :: "rat \<Rightarrow> int" where
  "ilog2 a = (let n = fst (quotient_of a); d = snd (quotient_of a); k = bitlen n - bitlen d
              in if pow2 k \<le> a then k else k - 1)"

definition round_half_even :: "rat \<Rightarrow> int" where
  "round_half_even s = (let f = \<lfloor>s\<rfloor>; d = s - of_int f
     in if d < 1 / 2 then f else if 1 / 2 < d then f + 1 else if even f then f else f + 1)"

definition round64 :: "rat \<Rightarrow> float64" where
  "round64 q = (if q = 0 then Fin 0 else
      let a = \<bar>q\<bar>; e = ilog2 a; p = max (e - 52) (- 1074);
          r = of_int (round_half_even (a / pow2 p)) * pow2 p
      in if pow2 1024 \<le> r then (if 0 < q then PInf else NInf)
         else Fin (if 0 < q then r else - r))"

fun f_mul :: "float64 \<Rightarrow> float64 \<Rightarrow> float64" where
  "f_mul (Fin a) (Fin b) = round64 (a * b)"
| "f_mul (Fin a) PInf = (if a = 0 then NaN else if 0 < a then PInf else NInf)"
| "f_mul (Fin a) NInf = (if a = 0 then NaN else if 0 < a then NInf else PInf)"
| "f_mul PInf (Fin b) = (if b = 0 then NaN else if 0 < b then PInf else NInf)"
| "f_mul NInf (Fin b) = (if b = 0 then NaN else if 0 < b then NInf else PInf)"
| "f_mul PInf PInf = PInf"
| "f_mul PInf NInf = NInf"
| "f_mul NInf PInf = NInf"
| "f_mul NInf NInf = PInf"
| "f_mul NaN _ = NaN"
| "f_mul _ NaN = NaN"

fun f_div :: "float64 \<Rightarrow> float64 \<Rightarrow> float64" where
  "f_div (Fin a) (Fin b) =
     (if b = 0 then (if a = 0 then NaN else if 0 < a then PInf else NInf)
      else round64 (a / b))"
| "f_div (Fin a) PInf = Fin 0"
| "f_div (Fin a) NInf = Fin 0"
| "f_div PInf (Fin b) = (if 0 \<le> b then PInf else NInf)"
| "f_div NInf (Fin b) = (if 0 \<le> b then NInf else PInf)"
| "f_div PInf PInf = NaN"
| "f_div PInf NInf = NaN"
| "f_div NInf PInf = NaN"
| "f_div NInf NInf = NaN"
| "f_div NaN _ = NaN"
| "f_div _ NaN = NaN"

fun f_less :: "float64 \<Rightarrow> float64 \<Rightarrow> bool" where
  "f_less (Fin a) (Fin b) = (a < b)"
| "f_less (Fin a) PInf = True"
| "f_less NInf (Fin b) = True"
| "f_less NInf PInf = True"
| "f_less _ _ = False"

fun f_eq :: "float64 \<Rightarrow> float64 \<Rightarrow> bool" where
  "f_eq (Fin a) (Fin b) = (a = b)"
| "f_eq PInf PInf = True"
| "f_eq NInf NInf = True"
| "f_eq _ _ = False"

definition f_le :: "float64 \<Rightarrow> float64 \<Rightarrow> bool" where
  "f_le x y = (f_less x y \<or> f_eq x y)"

text \<open>The constant \<open>25.4\<close> of the source, as the \<open>float64\<close> the compiler makes of it.\<close>

definition f_25_4 :: float64 where
  "f_25_4 = round64 (254 / 10)"

subsection \<open>Decimal text: \<open>%d\<close>, \<open>%.Nf\<close> and \<open>strconv.ParseFloat\<close>\<close>

abbreviation dq :: char where "dq \<equiv> CHR 0x22"
abbreviation nl :: char where "nl \<equiv> CHR 0x0A"

definition digit_char :: "nat \<Rightarrow> char" where
  "digit_char d = ''0123456789'' ! d"

fun show_nat :: "nat \<Rightarrow> string" where
  "show_nat n = (if n < 10 then [digit_char n] else show_nat (n div 10) @ [digit_char (n mod 10)])"

declare show_nat.simps [simp del]

definition show_int :: "int \<Rightarrow> string" where
  "show_int i = (if i < 0 then ''-'' @ show_nat (nat (- i)) else show_nat (nat i))"

text \<open>
  \<open>fmt.Sprintf("%.Nf", x)\<close>: the exact value rounded to \<open>N\<close> decimals, ties to even;
  the infinities and NaN print as \<open>+Inf\<close>, \<open>-Inf\<close>, \<open>NaN\<close>.
\<close>

definition fmt_f :: "nat \<Rightarrow> float64 \<Rightarrow> string" where
  "fmt_f prec x = (case x of
      NaN \<Rightarrow> ''NaN'' | PInf \<Rightarrow> ''+Inf'' | NInf \<Rightarrow> ''-Inf''
    | Fin q \<Rightarrow>
        (let n = nat (round_half_even (\<bar>q\<bar> * 10 ^ prec));
             ip = n div 10 ^ prec; fp = show_nat (n mod 10 ^ prec)
         in (if q < 0 then ''-'' else '''') @ show_nat ip @
            (if prec = 0 then '''' else ''.'' @ replicate (prec - length fp) CHR ''0'' @ fp)))"

definition byte :: "char \<Rightarrow> nat" where
  "byte c = of_char c"

definition is_digit :: "char \<Rightarrow> bool" where
  "is_digit c = (48 \<le> byte c \<and> byte c \<le> 57)"

definition digit_val :: "char \<Rightarrow> nat" where
  "digit_val c = byte c - 48"

definition decimal_val :: "string \<Rightarrow> nat" where
  "decimal_val ds = foldl (\<lambda>acc c. 10 * acc + digit_val c) 0 ds"

text \<open>
  \<open>strconv.ParseFloat(s, 64)\<close> on a text of decimal digits and dots, the only texts the
  program hands to it: digits with at most one dot and at least one digit denote a
  decimal number, which is rounded correctly (an overflow gives \<open>+Inf\<close> with a range
  error); anything else is a syntax error with the value 0. The second component says
  whether an error is returned.
\<close>

definition parse_plain :: "string \<Rightarrow> rat option" where
  "parse_plain s =
     (let ip = takeWhile is_digit s; r = dropWhile is_digit s
      in case r of
           [] \<Rightarrow> (if ip = [] then None else Some (of_int (int (decimal_val ip))))
         | c # fs \<Rightarrow>
             (if c = CHR ''.'' \<and> list_all is_digit fs \<and> (ip \<noteq> [] \<or> fs \<noteq> [])
              then Some (of_int (int (decimal_val ip)) + of_int (int (decimal_val fs)) / 10 ^ length fs)
              else None))"

definition ParseFloat :: "string \<Rightarrow> float64 \<times> bool" where
  "ParseFloat s = (case parse_plain s of
      None \<Rightarrow> (Fin 0, True)
    | Some q \<Rightarrow> (round64 q, round64 q = PInf))"

subsection \<open>Regular expressions\<close>

text \<open>
  The patterns of the program are sequences of literals, single character classes and
  greedy stars of a character class. Go's \<open>regexp\<close> finds the leftmost match and, among
  the matches that start there, the one a backtracking search finds first. The matcher
  below is that search: a greedy star takes the longest run first and gives characters
  back one at a time while the rest of the pattern fails. The patterns only name ASCII
  characters, so matching bytes and matching UTF-8 runes find the same matches.
\<close>

datatype rx_item = Lit string | Cls "char \<Rightarrow> bool" | Star "char \<Rightarrow> bool"

fun rx_lit :: "string \<Rightarrow> (string \<Rightarrow> 'a option) \<Rightarrow> string \<Rightarrow> 'a option" where
  "rx_lit [] k s = k s"
| "rx_lit (c # cs) k [] = None"
| "rx_lit (c # cs) k (d # ds) = (if c = d then rx_lit cs k ds else None)"

fun rx_star :: "(char \<Rightarrow> bool) \<Rightarrow> (string \<Rightarrow> 'a option) \<Rightarrow> string \<Rightarrow> 'a option" where
  "rx_star p k [] = k []"
| "rx_star p k (c # cs) =
     (if p c then (case rx_star p k cs of Some r \<Rightarrow> Some r | None \<Rightarrow> k (c # cs))
      else k (c # cs))"

fun rx_item_match :: "rx_item \<Rightarrow> (string \<Rightarrow> 'a option) \<Rightarrow> string \<Rightarrow> 'a option" where
  "rx_item_match (Lit l) k s = rx_lit l k s"
| "rx_item_match (Cls p) k [] = None"
| "rx_item_match (Cls p) k (c # cs) = (if p c then k cs else None)"
| "rx_item_match (Star p) k s = rx_star p k s"

primrec rx_match :: "rx_item list \<Rightarrow> (string \<Rightarrow> 'a option) \<Rightarrow> string \<Rightarrow> 'a option" where
  "rx_match [] k = k"
| "rx_match (i # is) k = rx_item_match i (rx_match is k)"

text \<open>The leftmost match: the first position at which the backtracking search succeeds.\<close>

fun rx_find :: "rx_item list \<Rightarrow> (string \<Rightarrow> 'a option) \<Rightarrow> string \<Rightarrow> 'a option" where
  "rx_find items k [] = rx_match items k []"
| "rx_find items k (c # cs) =
     (case rx_match items k (c # cs) of Some r \<Rightarrow> Some r | None \<Rightarrow> rx_find items k cs)"

definition is_hex :: "char \<Rightarrow> bool" where
  "is_hex c = (is_digit c \<or> (97 \<le> byte c \<and> byte c \<le> 102) \<or> (65 \<le> byte c \<and> byte c \<le> 70))"

definition is_space :: "char \<Rightarrow> bool" where
  "is_space c = (c \<in> set [CHR 0x09, CHR 0x0A, CHR 0x0C, CHR 0x0D, CHR '' ''])"

section \<open>Vector post-processor (srv/server.go)\<close>

type_synonym files = "string \<rightharpoonup> string"

subsection \<open>\<open>getSVGDimensions\<close>\<close>

definition is_digit_or_dot :: "char \<Rightarrow> bool" where
  "is_digit_or_dot c = (is_digit c \<or> c = CHR ''.'')"

text \<open>The capture group \<open>([0-9.]+)\<close> that ends both dimension patterns.\<close>

definition capture_number :: "string \<Rightarrow> string option" where
  "capture_number s = (let m = takeWhile is_digit_or_dot s in if m = [] then None else Some m)"

definition widthRe :: "rx_item list" where
  "widthRe = [Lit ''<svg'', Star (\<lambda>c. c \<noteq> CHR ''>''), Cls is_space, Lit (''width='' @ [dq])]"

definition heightRe :: "rx_item list" where
  "heightRe = [Lit ''<svg'', Star (\<lambda>c. c \<noteq> CHR ''>''), Cls is_space, Lit (''height='' @ [dq])]"

definition getSVGDimensions :: "files \<Rightarrow> string \<Rightarrow> float64 \<times> float64" where
  "getSVGDimensions fs svgPath =
     (case fs svgPath of
        None \<Rightarrow> (Fin 100, Fin 100)
      | Some data \<Rightarrow>
          (let width = (case rx_find widthRe capture_number data of
                          Some m \<Rightarrow> fst (ParseFloat m) | None \<Rightarrow> Fin 0);
               height = (case rx_find heightRe capture_number data of
                          Some m \<Rightarrow> fst (ParseFloat m) | None \<Rightarrow> Fin 0);
               width = (if f_eq width (Fin 0) then Fin 100 else width);
               height = (if f_eq height (Fin 0) then Fin 100 else height)
           in (width, height)))"

subsection \<open>\<open>scaleToFit\<close>\<close>

definition scaleToFit :: "float64 \<Rightarrow> float64 \<Rightarrow> float64 \<Rightarrow> float64 \<Rightarrow> float64 \<times> float64" where
  "scaleToFit srcW srcH maxW maxH =
     (if f_le srcW (Fin 0) \<or> f_le srcH (Fin 0) then (maxW, maxH)
      else
        (let scaleW = f_div maxW srcW;
             scaleH = f_div maxH srcH;
             scale = (if f_less scaleH scaleW then scaleH else scaleW)
         in (f_mul srcW scale, f_mul srcH scale)))"

subsection \<open>\<open>isNearWhite\<close> and \<open>filterWhitePaths\<close>\<close>

definition hex_val :: "char \<Rightarrow> int" where
  "hex_val c = (if is_digit c then int (byte c) - 48
                else if 97 \<le> byte c \<and> byte c \<le> 102 then int (byte c) - 87
                else int (byte c) - 55)"

text \<open>
  \<open>strconv.ParseInt(s, 16, 64)\<close> on a text of two bytes, with the error dropped as the
  caller drops it: two hexadecimal digits give their value, a sign and one digit give
  the signed digit, and a syntax error gives 0.
\<close>

definition ParseInt16 :: "string \<Rightarrow> int" where
  "ParseInt16 s = (case s of
      [a, b] \<Rightarrow>
        (if is_hex a \<and> is_hex b then 16 * hex_val a + hex_val b
         else if a = CHR ''+'' \<and> is_hex b then hex_val b
         else if a = CHR ''-'' \<and> is_hex b then - hex_val b
         else 0)
    | _ \<Rightarrow> 0)"

definition isNearWhite :: "string \<Rightarrow> bool" where
  "isNearWhite hex =
     (if length hex \<noteq> 6 then False
      else
        (let r = ParseInt16 (take 2 hex);
             g = ParseInt16 (take 2 (drop 2 hex));
             b = ParseInt16 (take 2 (drop 4 hex));
             threshold = 240
         in threshold < r \<and> threshold < g \<and> threshold < b))"

definition hex6 :: "rx_item list" where
  "hex6 = [Cls is_hex, Cls is_hex, Cls is_hex, Cls is_hex, Cls is_hex, Cls is_hex]"

definition pathRegex :: "rx_item list" where
  "pathRegex =
     [Lit ''<path'', Star (\<lambda>c. c \<noteq> CHR ''>''), Lit (''style='' @ [dq]),
      Star (\<lambda>c. c \<noteq> dq), Lit ''stroke:#''] @ hex6 @
     [Star (\<lambda>c. c \<noteq> dq), Lit [dq], Star (\<lambda>c. c \<noteq> CHR ''>''), Lit ''/>'']"

definition strokeRegex :: "rx_item list" where
  "strokeRegex = [Lit ''stroke:#'']"

text \<open>
  The capture group of the inner pattern \<open>stroke:#([0-9a-fA-F]{6})\<close>: six hexadecimal
  digits right after the literal.
\<close>

definition capture_hex6 :: "string \<Rightarrow> string option" where
  "capture_hex6 s = (if 6 \<le> length s \<and> list_all is_hex (take 6 s) then Some (take 6 s) else None)"

text \<open>The function handed to \<open>ReplaceAllFunc\<close>: what replaces one matched path element.\<close>

definition replace_path :: "string \<Rightarrow> string" where
  "replace_path m =
     (case rx_find strokeRegex capture_hex6 m of
        None \<Rightarrow> m
      | Some hexColor \<Rightarrow> if isNearWhite hexColor then [] else m)"

text \<open>
  \<open>pathRegex.ReplaceAllFunc\<close>: the matches are found from left to right, each search
  starting where the last match ended; text outside the matches is copied. A match of
  \<open>pathRegex\<close> is never empty, so the search always moves on.
\<close>

function ReplaceAllFunc :: "rx_item list \<Rightarrow> (string \<Rightarrow> string) \<Rightarrow> string \<Rightarrow> string" where
  "ReplaceAllFunc re f [] = []"
| "ReplaceAllFunc re f (c # cs) =
     (case rx_match re Some (c # cs) of
        None \<Rightarrow> c # ReplaceAllFunc re f cs
      | Some rest \<Rightarrow>
          (if length rest \<le> length cs
           then f (take (length (c # cs) - length rest) (c # cs)) @ ReplaceAllFunc re f rest
           else c # ReplaceAllFunc re f cs))"
  by pat_completeness auto
termination
  by (relation "measure (\<lambda>(re, f, s). length s)") auto

definition filterWhitePaths_bytes :: "string \<Rightarrow> string" where
  "filterWhitePaths_bytes data = ReplaceAllFunc pathRegex replace_path data"

text \<open>
  The file operation: the document is read, filtered and written back. A read error is
  returned; \<open>write_err\<close> is what \<open>os.WriteFile\<close> answers.
\<close>

definition filterWhitePaths :: "string option \<Rightarrow> files \<Rightarrow> string \<Rightarrow> string option \<times> files" where
  "filterWhitePaths write_err fs svgPath =
     (case fs svgPath of
        None \<Rightarrow> (Some (''open '' @ svgPath @ '': no such file or directory''), fs)
      | Some data \<Rightarrow>
          (case write_err of
             Some e \<Rightarrow> (Some e, fs)
           | None \<Rightarrow> (None, fs(svgPath \<mapsto> filterWhitePaths_bytes data))))"

section \<open>Result cache (the cache source file of package srv)\<close>

subsection \<open>Library functions and the environment\<close>

text \<open>
  Functions of Go's standard library that the program calls and whose code is not part
  of the repository are parameters of the model: SHA-256, the path functions, the MIME
  table, the JSON and base64 decoders, and the text functions of \<open>net/url\<close> and
  \<open>strconv\<close> from which \<open>net/http\<close> builds its error messages.
\<close>

record stdlib =
  sha256_Sum256 :: "string \<Rightarrow> 256 word"
  filepath_Join :: "string \<Rightarrow> string \<Rightarrow> string"
  filepath_Base :: "string \<Rightarrow> string"
  filepath_Ext :: "string \<Rightarrow> string"
  strings_ToLower :: "string \<Rightarrow> string"
  mime_TypeByExtension :: "string \<Rightarrow> string"
  url_Parse_err :: "string \<Rightarrow> string option"
  url_String :: "string \<Rightarrow> string"
  strconv_Quote :: "string \<Rightarrow> string"
  json_errResp :: "string \<Rightarrow> string option"
  json_apiResp :: "string \<Rightarrow> string + (string \<times> string) option list list"
  base64_DecodeString :: "string \<Rightarrow> string + string"

datatype 'a result = Ok 'a | Err string | Panic string

definition hex_digit :: "nat \<Rightarrow> char" where
  "hex_digit n = ''0123456789abcdef'' ! n"

text \<open>\<open>hex.EncodeToString\<close> of the 32 bytes of a digest: 64 lower-case digits.\<close>

definition hex_EncodeToString :: "256 word \<Rightarrow> string" where
  "hex_EncodeToString w =
     map (\<lambda>i. hex_digit (unat (take_bit 4 (drop_bit (4 * (63 - i)) w)))) [0..<64]"

definition HashFile :: "stdlib \<Rightarrow> files \<Rightarrow> string \<Rightarrow> string result" where
  "HashFile lib fs path =
     (case fs path of
        None \<Rightarrow> Err (''open '' @ path @ '': no such file or directory'')
      | Some data \<Rightarrow> Ok (hex_EncodeToString (sha256_Sum256 lib data)))"

definition hashString :: "stdlib \<Rightarrow> string \<Rightarrow> string" where
  "hashString lib s = take 16 (hex_EncodeToString (sha256_Sum256 lib s))"

definition MakeCacheKey :: "stdlib \<Rightarrow> string \<Rightarrow> string \<Rightarrow> string" where
  "MakeCacheKey lib inputHash prompt = inputHash @ '':'' @ hashString lib prompt"

definition DefaultAIPrompt :: string where
  "DefaultAIPrompt =
     ''Reduce this image to a two color line-art image suitable for use in a '' @
     ''child's coloring book. The lines should be black and the background '' @
     ''white. The image will be reproduced by an X-Y plotter, so the final '' @
     ''image should have only lines (no solid/filled areas).''"

subsection \<open>The index: one SQLite database\<close>

text \<open>
  The table \<open>ai_image_cache\<close> has the current layout (primary key \<open>cache_key\<close>) or the
  legacy one, whose primary key is \<open>input_hash\<close> and which has no prompt: the layout the
  migration reads its columns from. A table is the list of its rows, in insertion order.
\<close>

record cache_row =
  cache_key :: string
  input_hash :: string
  prompt :: string
  output_filename :: string
  mime_type :: string
  created_at :: int

record legacy_row =
  old_input_hash :: string
  old_output_filename :: string
  old_mime_type :: string
  old_created_at :: int

datatype table = LegacyTable "legacy_row list" | CacheTable "cache_row list"

record database =
  ai_image_cache :: "table option"
  ai_image_cache_old :: "table option"

datatype stmt =
  CreateIfNotExists | PragmaCount | RenameOld | CreateNew | CopyRows | DropOld
  | SelectRow | UpsertRow

text \<open>
  What the operating system and the SQL layer answer: \<open>db_err st\<close> is the failure of
  statement \<open>st\<close>, one whose error the code checks, for a reason outside the tables
  (I/O, lock), if any. \<open>delete_err\<close> is the failure, if any, of the \<open>DELETE\<close> of \<open>Lookup\<close>,
  whose error the code discards: the row then stays. \<open>stat_err path\<close> is the failure of
  \<open>os.Stat\<close> on \<open>path\<close> for a reason other than the file not existing (a component of the
  path that is not a directory, a name that is too long, a permission), if any.
  \<open>os.Remove\<close> of \<open>Store\<close>, on the file the same call has just created, is modelled by its
  effect.
\<close>

record env =
  now_nano :: int
  current_timestamp :: int
  mkdir_err :: "string option"
  open_err :: "string option"
  db_err :: "stmt \<Rightarrow> string option"
  write_err :: "string option"
  stat_err :: "string \<Rightarrow> string option"
  delete_err :: "string option"

record disk =
  files :: files
  dbs :: "string \<rightharpoonup> database"

record AIImageCache =
  c_db :: string
  c_cacheDir :: string

record CachedResult =
  Filename :: string
  MimeType :: string
  FullPath :: string
  Prompt :: string

definition empty_db :: database where
  "empty_db = \<lparr>ai_image_cache = None, ai_image_cache_old = None\<rparr>"

definition open_db :: "disk \<Rightarrow> string \<Rightarrow> database" where
  "open_db d dbPath = (case dbs d dbPath of None \<Rightarrow> empty_db | Some db \<Rightarrow> db)"

definition sql_create_if_not_exists :: "database \<Rightarrow> database" where
  "sql_create_if_not_exists db =
     (case ai_image_cache db of
        None \<Rightarrow> db\<lparr>ai_image_cache := Some (CacheTable [])\<rparr>
      | Some t \<Rightarrow> db)"

text \<open>
  \<open>SELECT COUNT(*) FROM pragma_table_info('ai_image_cache') WHERE name = 'input_hash' AND pk = 1\<close>
\<close>

definition sql_pragma_count :: "database \<Rightarrow> nat" where
  "sql_pragma_count db =
     (case ai_image_cache db of Some (LegacyTable rs) \<Rightarrow> 1 | _ \<Rightarrow> 0)"

definition sql_rename_old :: "database \<Rightarrow> string + database" where
  "sql_rename_old db =
     (case ai_image_cache db of
        None \<Rightarrow> Inl ''no such table: ai_image_cache''
      | Some t \<Rightarrow>
          (case ai_image_cache_old db of
             Some t' \<Rightarrow> Inl ''there is already another table or index with this name: ai_image_cache_old''
           | None \<Rightarrow> Inr \<lparr>ai_image_cache = None, ai_image_cache_old = Some t\<rparr>))"

definition sql_create_new :: "database \<Rightarrow> string + database" where
  "sql_create_new db =
     (case ai_image_cache db of
        Some t \<Rightarrow> Inl ''table ai_image_cache already exists''
      | None \<Rightarrow> Inr (db\<lparr>ai_image_cache := Some (CacheTable [])\<rparr>))"

definition migrate_row :: "stdlib \<Rightarrow> legacy_row \<Rightarrow> cache_row" where
  "migrate_row lib r =
     \<lparr>cache_key = old_input_hash r @ '':'' @ hashString lib DefaultAIPrompt,
      input_hash = old_input_hash r,
      prompt = DefaultAIPrompt,
      output_filename = old_output_filename r,
      mime_type = old_mime_type r,
      created_at = old_created_at r\<rparr>"

text \<open>
  \<open>INSERT INTO ai_image_cache ... SELECT ... FROM ai_image_cache_old\<close>: a plain insert, so
  a key that is already there, or twice among the new rows, fails the whole statement.
\<close>

definition sql_copy_rows :: "stdlib \<Rightarrow> database \<Rightarrow> string + database" where
  "sql_copy_rows lib db =
     (case (ai_image_cache db, ai_image_cache_old db) of
        (Some (CacheTable cur), Some (LegacyTable rs)) \<Rightarrow>
          (let new = cur @ map (migrate_row lib) rs
           in if distinct (map cache_key new)
              then Inr (db\<lparr>ai_image_cache := Some (CacheTable new)\<rparr>)
              else Inl ''UNIQUE constraint failed: ai_image_cache.cache_key'')
      | _ \<Rightarrow> Inl ''no such table or column'')"

definition sql_drop_old :: "database \<Rightarrow> string + database" where
  "sql_drop_old db =
     (case ai_image_cache_old db of
        None \<Rightarrow> Inl ''no such table: ai_image_cache_old''
      | Some t \<Rightarrow> Inr (db\<lparr>ai_image_cache_old := None\<rparr>))"

text \<open>A statement under the environment: its outside failure first, then its own.\<close>

definition exec :: "env \<Rightarrow> stmt \<Rightarrow> (database \<Rightarrow> string + database) \<Rightarrow> database \<Rightarrow> string + database" where
  "exec e st run db = (case db_err e st of Some msg \<Rightarrow> Inl msg | None \<Rightarrow> run db)"

subsection \<open>\<open>migrateOldSchema\<close> and \<open>NewAIImageCache\<close>\<close>

definition migrateOldSchema :: "stdlib \<Rightarrow> env \<Rightarrow> database \<Rightarrow> string option \<times> database" where
  "migrateOldSchema lib e db =
     (case db_err e PragmaCount of
        Some msg \<Rightarrow> (Some msg, db)
      | None \<Rightarrow>
          if sql_pragma_count db = 0 then (None, db)
          else
            (case exec e RenameOld sql_rename_old db of
               Inl msg \<Rightarrow> (Some (''rename old table: '' @ msg), db)
             | Inr db1 \<Rightarrow>
                 (case exec e CreateNew sql_create_new db1 of
                    Inl msg \<Rightarrow> (Some (''create new table: '' @ msg), db1)
                  | Inr db2 \<Rightarrow>
                      (case exec e CopyRows (sql_copy_rows lib) db2 of
                         Inl msg \<Rightarrow> (Some (''migrate data: '' @ msg), db2)
                       | Inr db3 \<Rightarrow>
                           (case exec e DropOld sql_drop_old db3 of
                              Inl msg \<Rightarrow> (Some (''drop old table: '' @ msg), db3)
                            | Inr db4 \<Rightarrow> (None, db4))))))"

definition NewAIImageCache :: "stdlib \<Rightarrow> env \<Rightarrow> string \<Rightarrow> string \<Rightarrow> disk \<Rightarrow> AIImageCache result \<times> disk" where
  "NewAIImageCache lib e dbPath cacheDir d =
     (case mkdir_err e of
        Some msg \<Rightarrow> (Err (''create cache dir: '' @ msg), d)
      | None \<Rightarrow>
          (case open_err e of
             Some msg \<Rightarrow> (Err (''open database: '' @ msg), d)
           | None \<Rightarrow>
               (case db_err e CreateIfNotExists of
                  Some msg \<Rightarrow> (Err (''create table: '' @ msg), d)
                | None \<Rightarrow>
                    (let db1 = sql_create_if_not_exists (open_db d dbPath);
                         (err, db2) = migrateOldSchema lib e db1;
                         d' = d\<lparr>dbs := (dbs d)(dbPath \<mapsto> db2)\<rparr>
                     in case err of
                          Some msg \<Rightarrow> (Err (''migrate schema: '' @ msg), d')
                        | None \<Rightarrow> (Ok \<lparr>c_db = dbPath, c_cacheDir = cacheDir\<rparr>, d')))))"

subsection \<open>\<open>Lookup\<close> and \<open>Store\<close>\<close>

definition cache_rows :: "disk \<Rightarrow> string \<Rightarrow> cache_row list option" where
  "cache_rows d dbPath =
     (case ai_image_cache (open_db d dbPath) of
        Some (CacheTable rs) \<Rightarrow> Some rs
      | _ \<Rightarrow> None)"

definition set_cache_rows :: "disk \<Rightarrow> string \<Rightarrow> cache_row list \<Rightarrow> disk" where
  "set_cache_rows d dbPath rs =
     d\<lparr>dbs := (dbs d)(dbPath \<mapsto> (open_db d dbPath)\<lparr>ai_image_cache := Some (CacheTable rs)\<rparr>)\<rparr>"

text \<open>
  The error of \<open>os.Stat\<close>, if any: \<open>ErrNotExist\<close> when the path names no file, another error
  when the environment says so. \<open>os.IsNotExist\<close> holds of the first kind alone.
\<close>

datatype os_error = ErrNotExist | ErrOther string

definition os_Stat :: "env \<Rightarrow> disk \<Rightarrow> string \<Rightarrow> os_error option" where
  "os_Stat e d path =
     (case stat_err e path of
        Some msg \<Rightarrow> Some (ErrOther msg)
      | None \<Rightarrow> if files d path = None then Some ErrNotExist else None)"

definition os_IsNotExist :: "os_error option \<Rightarrow> bool" where
  "os_IsNotExist err = (err = Some ErrNotExist)"

text \<open>\<open>DELETE FROM ai_image_cache WHERE cache_key = ?\<close>, its error discarded.\<close>

definition sql_delete :: "env \<Rightarrow> AIImageCache \<Rightarrow> string \<Rightarrow> cache_row list \<Rightarrow> disk \<Rightarrow> disk" where
  "sql_delete e c cacheKey rs d =
     (case delete_err e of
        Some msg \<Rightarrow> d
      | None \<Rightarrow> set_cache_rows d (c_db c) (filter (\<lambda>r. cache_key r \<noteq> cacheKey) rs))"

definition Lookup :: "stdlib \<Rightarrow> env \<Rightarrow> AIImageCache \<Rightarrow> string \<Rightarrow> string \<Rightarrow> disk \<Rightarrow> CachedResult option result \<times> disk" where
  "Lookup lib e c inputHash prompt' d =
     (let cacheKey = MakeCacheKey lib inputHash prompt'
      in case db_err e SelectRow of
           Some msg \<Rightarrow> (Err msg, d)
         | None \<Rightarrow>
             (case cache_rows d (c_db c) of
                None \<Rightarrow> (Err ''no such table or column'', d)
              | Some rs \<Rightarrow>
                  (case find (\<lambda>r. cache_key r = cacheKey) rs of
                     None \<Rightarrow> (Ok None, d)
                   | Some r \<Rightarrow>
                       (let fullPath = filepath_Join lib (c_cacheDir c) (output_filename r)
                        in if os_IsNotExist (os_Stat e d fullPath)
                           then (Ok None, sql_delete e c cacheKey rs d)
                           else (Ok (Some \<lparr>Filename = output_filename r, MimeType = mime_type r,
                                           FullPath = fullPath, Prompt = prompt r\<rparr>), d)))))"

definition mime_ext :: "string \<Rightarrow> string" where
  "mime_ext mimeType =
     (if mimeType = ''image/jpeg'' then ''.jpg''
      else if mimeType = ''image/webp'' then ''.webp''
      else if mimeType = ''image/gif'' then ''.gif''
      else ''.png'')"

text \<open>\<open>INSERT OR REPLACE\<close>: a row with the same key is deleted, the new row is added.\<close>

definition sql_upsert :: "cache_row \<Rightarrow> database \<Rightarrow> string + database" where
  "sql_upsert r db =
     (case ai_image_cache db of
        Some (CacheTable rs) \<Rightarrow>
          Inr (db\<lparr>ai_image_cache :=
                 Some (CacheTable (filter (\<lambda>x. cache_key x \<noteq> cache_key r) rs @ [r]))\<rparr>)
      | _ \<Rightarrow> Inl ''no such table or column'')"

definition Store :: "stdlib \<Rightarrow> env \<Rightarrow> AIImageCache \<Rightarrow> string \<Rightarrow> string \<Rightarrow> string \<Rightarrow> string \<Rightarrow> disk \<Rightarrow> CachedResult result \<times> disk" where
  "Store lib e c inputHash prompt' imageData mimeType d =
     (let cacheKey = MakeCacheKey lib inputHash prompt';
          ext = mime_ext mimeType
      in if length inputHash < 16 then (Panic ''slice bounds out of range'', d)
         else
           (let filename = take 16 inputHash @ ''_'' @ show_int (now_nano e) @ ext;
                fullPath = filepath_Join lib (c_cacheDir c) filename
            in case write_err e of
                 Some msg \<Rightarrow> (Err (''write cache file: '' @ msg), d)
               | None \<Rightarrow>
                   (let d1 = d\<lparr>files := (files d)(fullPath \<mapsto> imageData)\<rparr>;
                        row = \<lparr>cache_key = cacheKey, input_hash = inputHash, prompt = prompt',
                               output_filename = filename, mime_type = mimeType,
                               created_at = current_timestamp e\<rparr>
                    in case exec e UpsertRow (sql_upsert row) (open_db d1 (c_db c)) of
                         Inl msg \<Rightarrow>
                           (Err (''insert cache record: '' @ msg),
                            d1\<lparr>files := (files d1)(fullPath := None)\<rparr>)
                       | Inr db' \<Rightarrow>
                           (Ok \<lparr>Filename = filename, MimeType = mimeType,
                                FullPath = fullPath, Prompt = prompt'\<rparr>,
                            d1\<lparr>dbs := (dbs d1)((c_db c) \<mapsto> db')\<rparr>))))"

section \<open>Job pipeline (srv/server.go)\<close>

abbreviation sq :: char where "sq \<equiv> CHR 0x27"

record Job =
  ID :: string
  Status :: string
  Log :: string
  GCodePath :: string
  OriginalName :: string
  CreatedAt :: int
  MaxWidth :: float64
  MaxHeight :: float64
  ToolOn :: string
  ToolOff :: string
  UseAI :: bool
  AIImageFilename :: string
  AIImageCached :: bool

text \<open>
  The external collaborators answer as the run finds them: the HTTP exchange with the
  image-transform service fails in the transport with an error text, or yields a status
  code and a body (or an error while the body is read); an external process yields its
  standard output and error, its exit error if any, and the file it wrote, if any.
\<close>

datatype http_result = TransportError string | HttpResponse nat "string + string"

record proc_result =
  p_stdout :: string
  p_stderr :: string
  p_err :: "string option"
  p_output :: "string option"

record collab =
  cache_env :: env
  http :: http_result
  autotrace :: proc_result
  svg2gcode :: proc_result
  filter_write_err :: "string option"
  fallback_write_err :: "string option"

text \<open>Every request sent and every process started is recorded, in order.\<close>

datatype call =
    CallGemini string string string string
  | RunAutotrace "string list"
  | RunSvg2gcode "string list"

record world =
  w_disk :: disk
  w_calls :: "call list"

datatype run = Finished Job world | Crashed string

subsection \<open>\<open>callGeminiAPI\<close>\<close>

definition gemini_url :: "string \<Rightarrow> string" where
  "gemini_url apiKey =
     ''https://generativelanguage.googleapis.com/v1beta/models/gemini-2.0-flash-exp:generateContent?key='' @ apiKey"

definition input_mime_type :: "stdlib \<Rightarrow> string \<Rightarrow> string" where
  "input_mime_type lib inputPath =
     (let ext = strings_ToLower lib (filepath_Ext lib inputPath);
          inputMimeType = mime_TypeByExtension lib ext
      in if inputMimeType \<noteq> [] then inputMimeType
         else if ext = ''.png'' then ''image/png''
         else if ext = ''.jpg'' \<or> ext = ''.jpeg'' then ''image/jpeg''
         else if ext = ''.webp'' then ''image/webp''
         else if ext = ''.gif'' then ''image/gif''
         else if ext = ''.bmp'' then ''image/bmp''
         else ''image/png'')"

text \<open>The first part with inline data, over the candidates in order, decoded.\<close>

definition first_image :: "stdlib \<Rightarrow> (string \<times> string) option list list \<Rightarrow> (string \<times> string) result" where
  "first_image lib candidates =
     (case find (\<lambda>part. part \<noteq> None) (concat candidates) of
        Some (Some (mimeType, data)) \<Rightarrow>
          (case base64_DecodeString lib data of
             Inl msg \<Rightarrow> Err (''decode image: '' @ msg)
           | Inr imgData \<Rightarrow> Ok (imgData, mimeType))
      | _ \<Rightarrow> Err ''no image in API response'')"

text \<open>
  \<open>http.NewRequest\<close> parses the URL and fails with \<open>parse "URL": reason\<close>;
  \<open>client.Do\<close> reports a transport failure as a \<open>*url.Error\<close>, whose text is
  \<open>Post "URL": reason\<close>, the URL printed with \<open>%q\<close>.
\<close>

definition api_status_error :: "stdlib \<Rightarrow> nat \<Rightarrow> string \<Rightarrow> string" where
  "api_status_error lib code respBody =
     (case json_errResp lib respBody of
        Some m \<Rightarrow> (if m \<noteq> [] then ''API error: '' @ m
                   else ''API error (status '' @ show_nat code @ '')'')
      | None \<Rightarrow> ''API error (status '' @ show_nat code @ '')'')"

definition callGeminiAPI :: "stdlib \<Rightarrow> collab \<Rightarrow> world \<Rightarrow> string \<Rightarrow> string \<Rightarrow> string \<Rightarrow> (string \<times> string) result \<times> world" where
  "callGeminiAPI lib col w inputPath apiKey prompt' =
     (case files (w_disk w) inputPath of
        None \<Rightarrow>
          (Err (''read input image: open '' @ inputPath @ '': no such file or directory''), w)
      | Some inputData \<Rightarrow>
          (let inputMimeType = input_mime_type lib inputPath;
               url = gemini_url apiKey
           in case url_Parse_err lib url of
                Some msg \<Rightarrow>
                  (Err (''create request: parse '' @ strconv_Quote lib url @ '': '' @ msg), w)
              | None \<Rightarrow>
                  (let w' = w\<lparr>w_calls := w_calls w @ [CallGemini url inputMimeType prompt' inputData]\<rparr>
                   in case http col of
                        TransportError msg \<Rightarrow>
                          (Err (''API request failed: Post '' @ strconv_Quote lib (url_String lib url)
                                @ '': '' @ msg), w')
                      | HttpResponse code (Inl msg) \<Rightarrow> (Err (''read response: '' @ msg), w')
                      | HttpResponse code (Inr respBody) \<Rightarrow>
                          (if code \<noteq> 200 then (Err (api_status_error lib code respBody), w')
                           else
                             (case json_apiResp lib respBody of
                                Inl msg \<Rightarrow> (Err (''parse response: '' @ msg), w')
                              | Inr candidates \<Rightarrow> (first_image lib candidates, w'))))))"

subsection \<open>\<open>processJob\<close>\<close>

definition log_write :: "string \<Rightarrow> Job \<Rightarrow> Job" where
  "log_write s job = job\<lparr>Log := Log job @ s\<rparr>"

definition log_output :: "proc_result \<Rightarrow> Job \<Rightarrow> Job" where
  "log_output r job =
     (let job = (if p_stdout r \<noteq> [] then log_write (''stdout:'' @ [nl] @ p_stdout r @ [nl]) job else job)
      in if p_stderr r \<noteq> [] then log_write (''stderr:'' @ [nl] @ p_stderr r @ [nl]) job else job)"

definition run_process :: "proc_result \<Rightarrow> string \<Rightarrow> call \<Rightarrow> world \<Rightarrow> world" where
  "run_process r outPath c w =
     w\<lparr>w_calls := w_calls w @ [c],
       w_disk := (case p_output r of
                    None \<Rightarrow> w_disk w
                  | Some doc \<Rightarrow> (w_disk w)\<lparr>files := (files (w_disk w))(outPath \<mapsto> doc)\<rparr>)\<rparr>"

text \<open>The stages after the optional AI stage: trace, filter, scale, generate.\<close>

definition generate_stage :: "stdlib \<Rightarrow> collab \<Rightarrow> Job \<Rightarrow> world \<Rightarrow> string \<Rightarrow> string \<Rightarrow> run" where
  "generate_stage lib col job w svgPath gcodePath =
     (let (svgWidth, svgHeight) = getSVGDimensions (files (w_disk w)) svgPath;
          job = log_write (''SVG dimensions: '' @ fmt_f 2 svgWidth @ '' x '' @ fmt_f 2 svgHeight
                           @ '' pixels'' @ [nl]) job;
          job = log_write (''Max output dimensions: '' @ fmt_f 2 (MaxWidth job) @ '' x ''
                           @ fmt_f 2 (MaxHeight job) @ '' mm'' @ [nl]) job;
          (scaledWidth, scaledHeight) = scaleToFit svgWidth svgHeight (MaxWidth job) (MaxHeight job);
          job = log_write (''Target output dimensions: '' @ fmt_f 2 scaledWidth @ '' x ''
                           @ fmt_f 2 scaledHeight @ '' mm'' @ [nl]) job;
          dpi = f_mul (f_div svgWidth scaledWidth) f_25_4;
          job = log_write (''Calculated DPI: '' @ fmt_f 2 dpi @ [nl, nl]) job;
          dpiArg = fmt_f 4 dpi;
          job = log_write (''=== Running svg2gcode ==='' @ [nl]) job;
          job = log_write (''Command: svg2gcode --on '' @ [sq] @ ToolOn job @ [sq] @ '' --off ''
                           @ [sq] @ ToolOff job @ [sq] @ '' --dpi '' @ dpiArg @ '' '' @ svgPath
                           @ '' -o '' @ gcodePath @ [nl, nl]) job;
          w = run_process (svg2gcode col) gcodePath
                (RunSvg2gcode [''--on'', ToolOn job, ''--off'', ToolOff job, ''--dpi'', dpiArg,
                               svgPath, ''-o'', gcodePath]) w;
          job = log_output (svg2gcode col) job
      in case p_err (svg2gcode col) of
           Some e \<Rightarrow>
             Finished ((log_write ([nl] @ ''Error: '' @ e @ [nl]) job)\<lparr>Status := ''error''\<rparr>) w
         | None \<Rightarrow>
             Finished ((log_write (''svg2gcode completed successfully'' @ [nl]) job)
                       \<lparr>GCodePath := gcodePath, Status := ''done''\<rparr>) w)"

definition trace_stage :: "stdlib \<Rightarrow> collab \<Rightarrow> Job \<Rightarrow> world \<Rightarrow> string \<Rightarrow> string \<Rightarrow> run" where
  "trace_stage lib col job w jobDir inputPath =
     (let svgPath = filepath_Join lib jobDir ''output.svg'';
          gcodePath = filepath_Join lib jobDir ''output.gcode'';
          job = log_write (''=== Running autotrace ==='' @ [nl]) job;
          job = log_write (''Command: autotrace -centerline -color-count 2 -output-file ''
                           @ svgPath @ '' '' @ inputPath @ [nl, nl]) job;
          w = run_process (autotrace col) svgPath
                (RunAutotrace [''-centerline'', ''-color-count'', ''2'', ''-output-file'', svgPath, inputPath]) w;
          job = log_output (autotrace col) job
      in case p_err (autotrace col) of
           Some e \<Rightarrow>
             Finished ((log_write ([nl] @ ''Error: '' @ e @ [nl]) job)\<lparr>Status := ''error''\<rparr>) w
         | None \<Rightarrow>
             (let job = log_write (''autotrace completed successfully'' @ [nl, nl]) job;
                  job = log_write (''=== Filtering white paths from SVG ==='' @ [nl]) job;
                  (ferr, fs') = filterWhitePaths (filter_write_err col) (files (w_disk w)) svgPath;
                  w = w\<lparr>w_disk := (w_disk w)\<lparr>files := fs'\<rparr>\<rparr>;
                  job = (case ferr of
                           Some e \<Rightarrow> log_write (''Warning: failed to filter white paths: '' @ e @ [nl]) job
                         | None \<Rightarrow> log_write (''White paths removed'' @ [nl, nl]) job)
              in generate_stage lib col job w svgPath gcodePath))"

text \<open>
  The AI stage after a cache miss with a credential: the call, then the store, with the
  fall-back to the job's directory when the store fails. The stage ends with the working
  image to go on with, or with the job aborted.
\<close>

datatype ai_outcome = AiContinue Job world string | AiAbort Job world | AiCrash string

definition ai_error :: "string \<Rightarrow> Job \<Rightarrow> Job" where
  "ai_error line job = (log_write line job)\<lparr>Status := ''error''\<rparr>"

definition ai_saved :: "stdlib \<Rightarrow> string \<Rightarrow> Job \<Rightarrow> Job" where
  "ai_saved lib aiImagePath job =
     log_write (''AI transformation complete, saved as: '' @ filepath_Base lib aiImagePath @ [nl]) job"

definition ai_call_and_store :: "stdlib \<Rightarrow> collab \<Rightarrow> AIImageCache \<Rightarrow> Job \<Rightarrow> world \<Rightarrow> string \<Rightarrow> string \<Rightarrow> string \<Rightarrow> string \<Rightarrow> string \<Rightarrow> ai_outcome" where
  "ai_call_and_store lib col cache job w jobDir inputPath inputHash apiKey aiPrompt =
     (case callGeminiAPI lib col w inputPath apiKey aiPrompt of
        (Panic m, w) \<Rightarrow> AiCrash m
      | (Err e, w) \<Rightarrow> AiAbort (ai_error (''AI transformation error: '' @ e @ [nl]) job) w
      | (Ok (imageData, mimeType), w) \<Rightarrow>
          (case Store lib (cache_env col) cache inputHash aiPrompt imageData mimeType (w_disk w) of
             (Panic m, d) \<Rightarrow> AiCrash m
           | (Ok res, d) \<Rightarrow>
               AiContinue (ai_saved lib (FullPath res) (job\<lparr>AIImageFilename := Filename res\<rparr>))
                          (w\<lparr>w_disk := d\<rparr>) (FullPath res)
           | (Err e, d) \<Rightarrow>
               (let job = log_write (''Warning: failed to cache result: '' @ e @ [nl]) job;
                    ext = (if mimeType = ''image/jpeg'' then ''.jpg'' else ''.png'');
                    aiImagePath = filepath_Join lib jobDir (''ai_generated'' @ ext)
                in case fallback_write_err col of
                     Some e' \<Rightarrow>
                       AiAbort (ai_error (''Error saving AI image: '' @ e' @ [nl]) job) (w\<lparr>w_disk := d\<rparr>)
                   | None \<Rightarrow>
                       AiContinue (ai_saved lib aiImagePath job)
                                  (w\<lparr>w_disk := d\<lparr>files := (files d)(aiImagePath \<mapsto> imageData)\<rparr>\<rparr>)
                                  aiImagePath)))"

definition ai_stage :: "stdlib \<Rightarrow> collab \<Rightarrow> AIImageCache \<Rightarrow> Job \<Rightarrow> world \<Rightarrow> string \<Rightarrow> string \<Rightarrow> string \<Rightarrow> string \<Rightarrow> ai_outcome" where
  "ai_stage lib col cache job w jobDir inputPath apiKey aiPrompt =
     (let job = log_write (''=== Running AI Image Transformation ==='' @ [nl]) job
      in case HashFile lib (files (w_disk w)) inputPath of
           Panic m \<Rightarrow> AiCrash m
         | Err e \<Rightarrow> AiAbort (ai_error (''Error hashing input file: '' @ e @ [nl]) job) w
         | Ok inputHash \<Rightarrow>
             (let job = log_write (''Input image hash: '' @ take 16 inputHash @ [nl]) job;
                  (looked, d) = Lookup lib (cache_env col) cache inputHash aiPrompt (w_disk w);
                  w = w\<lparr>w_disk := d\<rparr>;
                  job = (case looked of
                           Err e \<Rightarrow> log_write (''Cache lookup error: '' @ e @ [nl]) job
                         | _ \<Rightarrow> job);
                  cached = (case looked of Ok (Some res) \<Rightarrow> Some res | _ \<Rightarrow> None)
              in case cached of
                   Some res \<Rightarrow>
                     (let job = log_write (''Cache HIT - using cached result: '' @ Filename res @ [nl]) job
                      in AiContinue (log_write [nl] (job\<lparr>AIImageFilename := Filename res, AIImageCached := True\<rparr>))
                                    w (FullPath res))
                 | None \<Rightarrow>
                     (let job = log_write (''Cache MISS - calling Gemini API...'' @ [nl]) job
                      in if apiKey = []
                         then AiAbort (ai_error (''Error: AI transformation enabled but no API key provided'' @ [nl]) job) w
                         else
                           (case ai_call_and_store lib col cache job w jobDir inputPath inputHash apiKey aiPrompt of
                              AiContinue job w aiImagePath \<Rightarrow> AiContinue (log_write [nl] job) w aiImagePath
                            | other \<Rightarrow> other))))"

definition processJob :: "stdlib \<Rightarrow> collab \<Rightarrow> AIImageCache \<Rightarrow> Job \<Rightarrow> world \<Rightarrow> string \<Rightarrow> string \<Rightarrow> string \<Rightarrow> string \<Rightarrow> run" where
  "processJob lib col cache job w jobDir inputPath apiKey aiPrompt =
     (if UseAI job then
        (case ai_stage lib col cache job w jobDir inputPath apiKey aiPrompt of
           AiCrash m \<Rightarrow> Crashed m
         | AiAbort job w \<Rightarrow> Finished job w
         | AiContinue job w aiImagePath \<Rightarrow> trace_stage lib col job w jobDir aiImagePath)
      else trace_stage lib col job w jobDir inputPath)"

section \<open>Predicates and sample inputs\<close>

definition all_stmts :: "stmt list" where
  "all_stmts = [CreateIfNotExists, PragmaCount, RenameOld, CreateNew, CopyRows, DropOld, SelectRow, UpsertRow]"

text \<open>An environment in which no call fails for an outside reason.\<close>

definition no_faults :: "env \<Rightarrow> bool" where
  "no_faults e =
     (mkdir_err e = None \<and> open_err e = None \<and> write_err e = None \<and>
      list_all (\<lambda>st. db_err e st = None) all_stmts)"

definition run_job :: "run \<Rightarrow> Job option" where
  "run_job r = (case r of Finished j w \<Rightarrow> Some j | Crashed m \<Rightarrow> None)"

definition run_world :: "run \<Rightarrow> world option" where
  "run_world r = (case r of Finished j w \<Rightarrow> Some w | Crashed m \<Rightarrow> None)"

text \<open>
  Sample inputs. \<open>lib0\<close> gives the library parameters simple values: the digest is constant
  (its value plays no part below), paths are joined with a slash, every URL parses and
  prints as it is written, and \<open>%q\<close> puts a text without special characters between
  double quotes, as Go does.
\<close>

definition lib0 :: stdlib where
  "lib0 = \<lparr>sha256_Sum256 = (\<lambda>s. 0),
           filepath_Join = (\<lambda>dir name. dir @ ''/'' @ name),
           filepath_Base = (\<lambda>p. p),
           filepath_Ext = (\<lambda>p. ''.png''),
           strings_ToLower = (\<lambda>s. s),
           mime_TypeByExtension = (\<lambda>ext. ''image/png''),
           url_Parse_err = (\<lambda>u. None),
           url_String = (\<lambda>u. u),
           strconv_Quote = (\<lambda>s. [dq] @ s @ [dq]),
           json_errResp = (\<lambda>body. None),
           json_apiResp = (\<lambda>body. Inl ''unexpected end of JSON input''),
           base64_DecodeString = (\<lambda>s. Inr s)\<rparr>"

definition env_ok :: env where
  "env_ok = \<lparr>now_nano = 1700000000000000000, current_timestamp = 1700000000,
             mkdir_err = None, open_err = None, db_err = (\<lambda>st. None), write_err = None,
             stat_err = (\<lambda>path. None), delete_err = None\<rparr>"


text \<open>
  The cache directory is no directory any more: \<open>os.Stat\<close> of a path below it fails with
  \<open>ENOTDIR\<close>. And the index is locked against writing: the \<open>DELETE\<close> fails.
\<close>

definition env_notdir :: env where
  "env_notdir = env_ok\<lparr>stat_err := (\<lambda>path. Some (''stat '' @ path @ '': not a directory''))\<rparr>"

definition env_delete_locked :: env where
  "env_delete_locked = env_ok\<lparr>delete_err := Some ''database is locked''\<rparr>"

definition cache0 :: AIImageCache where
  "cache0 = \<lparr>c_db = ''ai_cache.db'', c_cacheDir = ''ai_cache''\<rparr>"

definition hash0 :: string where
  "hash0 = ''0000000000000000000000000000000000000000000000000000000000000000''"

definition db_fresh :: database where
  "db_fresh = \<lparr>ai_image_cache = Some (CacheTable []), ai_image_cache_old = None\<rparr>"

definition disk0 :: disk where
  "disk0 = \<lparr>files = [''job/input.png'' \<mapsto> ''PNG''], dbs = [''ai_cache.db'' \<mapsto> db_fresh]\<rparr>"

definition row0 :: cache_row where
  "row0 = \<lparr>cache_key = MakeCacheKey lib0 hash0 DefaultAIPrompt, input_hash = hash0,
           prompt = DefaultAIPrompt, output_filename = ''0000000000000000_1.png'',
           mime_type = ''image/png'', created_at = 1\<rparr>"

text \<open>An index with one entry, without and with its blob.\<close>

definition disk_stale :: disk where
  "disk_stale = \<lparr>files = [''job/input.png'' \<mapsto> ''PNG''],
     dbs = [''ai_cache.db'' \<mapsto> \<lparr>ai_image_cache = Some (CacheTable [row0]), ai_image_cache_old = None\<rparr>]\<rparr>"

definition disk_cached :: disk where
  "disk_cached = disk_stale\<lparr>files := (files disk_stale)(''ai_cache/0000000000000000_1.png'' \<mapsto> ''ART'')\<rparr>"

definition legacy_rows0 :: "legacy_row list" where
  "legacy_rows0 =
     [\<lparr>old_input_hash = ''aaaa'', old_output_filename = ''aaaa_1.png'', old_mime_type = ''image/png'', old_created_at = 1\<rparr>,
      \<lparr>old_input_hash = ''bbbb'', old_output_filename = ''bbbb_2.jpg'', old_mime_type = ''image/jpeg'', old_created_at = 2\<rparr>]"

definition disk_legacy :: disk where
  "disk_legacy = \<lparr>files = Map.empty,
     dbs = [''ai_cache.db'' \<mapsto> \<lparr>ai_image_cache = Some (LegacyTable legacy_rows0), ai_image_cache_old = None\<rparr>]\<rparr>"

definition proc_ok :: "string \<Rightarrow> proc_result" where
  "proc_ok doc = \<lparr>p_stdout = [], p_stderr = [], p_err = None, p_output = Some doc\<rparr>"

text \<open>The service cannot be reached: the transport fails before any response.\<close>

definition col_net_down :: collab where
  "col_net_down = \<lparr>cache_env = env_ok,
      http = TransportError ''dial tcp: lookup generativelanguage.googleapis.com: no such host'',
      autotrace = proc_ok [], svg2gcode = proc_ok [],
      filter_write_err = None, fallback_write_err = None\<rparr>"

definition job_ai :: Job where
  "job_ai = \<lparr>ID = ''1'', Status = ''processing'', Log = [], GCodePath = [], OriginalName = ''input.png'',
      CreatedAt = 0, MaxWidth = Fin 200, MaxHeight = Fin 200, ToolOn = ''S4 M0'', ToolOff = ''S4 M100'',
      UseAI = True, AIImageFilename = [], AIImageCached = False\<rparr>"

definition world0 :: world where
  "world0 = \<lparr>w_disk = disk0, w_calls = []\<rparr>"

definition world_cached :: world where
  "world_cached = \<lparr>w_disk = disk_cached, w_calls = []\<rparr>"

section \<open>The fit in exact arithmetic, and sample documents\<close>

text \<open>
  The computation of the fit as the specification words it, over exact rationals: the
  reference the floating-point code is compared with.
\<close>

definition computeFitScale_exact :: "rat \<Rightarrow> rat \<Rightarrow> rat \<Rightarrow> rat \<Rightarrow> rat \<times> rat" where
  "computeFitScale_exact srcW srcH maxW maxH =
     (if srcW \<le> 0 \<or> srcH \<le> 0 then (maxW, maxH)
      else
        (let scaleW = maxW / srcW;
             scaleH = maxH / srcH;
             scale = min scaleW scaleH
         in (srcW * scale, srcH * scale)))"

text \<open>The unit roundoff of \<open>float64\<close>, and a range of magnitudes in which the fit neither
  overflows nor underflows.\<close>

definition eps :: rat where
  "eps = pow2 (- 53)"

definition in_range :: "rat \<Rightarrow> bool" where
  "in_range x = (pow2 (- 300) \<le> x \<and> x \<le> pow2 300)"

text \<open>The least positive \<open>float64\<close>, \<open>5e-324\<close>.\<close>

definition min_subnormal :: rat where
  "min_subnormal = 1 / 2 ^ 1074"

text \<open>A document as the tracer writes it: the root element with its size, then one
  self-closing path element per line.\<close>

definition svg_open :: "string \<Rightarrow> string \<Rightarrow> string" where
  "svg_open wd ht = ''<svg width='' @ [dq] @ wd @ [dq] @ '' height='' @ [dq] @ ht @ [dq] @ ''>'' @ [nl]"

definition path_elem :: "string \<Rightarrow> string \<Rightarrow> string" where
  "path_elem color d =
     ''<path style='' @ [dq] @ ''stroke:'' @ color @ ''; fill:none;'' @ [dq] @ '' d='' @ [dq] @ d @ [dq] @ ''/>''"

definition doc_traced :: string where
  "doc_traced = svg_open ''832'' ''832'' @ path_elem ''#fefefe'' ''M0 0L831 0'' @ [nl]
     @ path_elem ''#000000'' ''M1 1L2 2'' @ [nl] @ ''</svg>'' @ [nl]"

definition doc_filtered :: string where
  "doc_filtered = svg_open ''832'' ''832'' @ [nl]
     @ path_elem ''#000000'' ''M1 1L2 2'' @ [nl] @ ''</svg>'' @ [nl]"

definition col_stub :: collab where
  "col_stub = \<lparr>cache_env = env_ok, http = TransportError [],
      autotrace = proc_ok doc_traced, svg2gcode = proc_ok ''G0 X0 Y0'',
      filter_write_err = None, fallback_write_err = None\<rparr>"

definition job50 :: Job where
  "job50 = job_ai\<lparr>UseAI := False, MaxWidth := Fin 50, MaxHeight := Fin 50\<rparr>"

definition job_tiny :: Job where
  "job_tiny = job_ai\<lparr>UseAI := False, MaxWidth := Fin 50, MaxHeight := Fin min_subnormal\<rparr>"

definition run_calls :: "run \<Rightarrow> call list" where
  "run_calls r = (case r of Finished j w \<Rightarrow> w_calls w | Crashed m \<Rightarrow> [])"

definition run_file :: "run \<Rightarrow> string \<Rightarrow> string option" where
  "run_file r path = (case r of Finished j w \<Rightarrow> files (w_disk w) path | Crashed m \<Rightarrow> None)"

section \<open>Documents as the tracer writes them\<close>

text \<open>
  The tracer writes each path as one self-closing element,
  \<open><path style="stroke:#RRGGBB; fill:none;" d="..."/>\<close>. A document of this form is a list
  of chunks: path elements, given by the text of the style and of the path data, and other
  text, in which no path element starts. The text of an attribute holds no double quote,
  angle bracket or equals sign.
\<close>

datatype chunk = Text string | PathElem string string

definition attr_value :: "string \<Rightarrow> bool" where
  "attr_value v = list_all (\<lambda>c. c \<noteq> dq \<and> c \<noteq> CHR ''<'' \<and> c \<noteq> CHR ''>'' \<and> c \<noteq> CHR ''='') v"

definition path_text :: "string \<Rightarrow> string \<Rightarrow> string" where
  "path_text sv pd = ''<path style='' @ [dq] @ sv @ [dq] @ '' d='' @ [dq] @ pd @ [dq] @ ''/>''"

text \<open>At no position of the text does \<open><path\<close> begin, whole or cut off by the end of the text.\<close>

fun plain_text :: "string \<Rightarrow> bool" where
  "plain_text [] = True"
| "plain_text (c # cs) = (\<not> prefix (c # cs) ''<path'' \<and> \<not> prefix ''<path'' (c # cs) \<and> plain_text cs)"

fun render :: "chunk \<Rightarrow> string" where
  "render (Text t) = t"
| "render (PathElem sv pd) = path_text sv pd"

definition render_doc :: "chunk list \<Rightarrow> string" where
  "render_doc doc = concat (map render doc)"

fun wf_chunk :: "chunk \<Rightarrow> bool" where
  "wf_chunk (Text t) = plain_text t"
| "wf_chunk (PathElem sv pd) = (attr_value sv \<and> attr_value pd)"

text \<open>
  What the specification says of the filter, in its words: the stroke colour of a path is
  the six hexadecimal digits that follow the first \<open>stroke:#\<close> of its style that six such
  digits follow; its three channels are the three pairs of digits; the path is removed
  when each channel is above 240, and kept otherwise, also when its style names no
  such colour.
\<close>

fun stroke_hex :: "string \<Rightarrow> string option" where
  "stroke_hex [] = None"
| "stroke_hex (c # cs) =
     (if prefix ''stroke:#'' (c # cs) \<and> 6 \<le> length (drop 8 (c # cs)) \<and> list_all is_hex (take 6 (drop 8 (c # cs)))
      then Some (take 6 (drop 8 (c # cs))) else stroke_hex cs)"

definition channel :: "char \<Rightarrow> char \<Rightarrow> int" where
  "channel a b = 16 * hex_val a + hex_val b"

definition spec_near_white :: "string \<Rightarrow> bool" where
  "spec_near_white h = (case h of
      [r1, r2, g1, g2, b1, b2] \<Rightarrow> 240 < channel r1 r2 \<and> 240 < channel g1 g2 \<and> 240 < channel b1 b2
    | _ \<Rightarrow> False)"

fun spec_removed :: "chunk \<Rightarrow> bool" where
  "spec_removed (Text t) = False"
| "spec_removed (PathElem sv pd) = (case stroke_hex sv of Some h \<Rightarrow> spec_near_white h | None \<Rightarrow> False)"

text \<open>Sample documents: the traced document of the scenario, and one path for each colour
  the specification names, with the paths that stay.\<close>

definition style_of :: "string \<Rightarrow> string" where
  "style_of color = ''stroke:'' @ color @ ''; fill:none;''"

definition doc_sample :: "chunk list" where
  "doc_sample =
     [Text (svg_open ''832'' ''832''),
      PathElem (style_of ''#fefefe'') ''M0 0L831 0'', Text [nl],
      PathElem (style_of ''#000000'') ''M1 1L2 2'', Text ([nl] @ ''</svg>'' @ [nl])]"

definition doc_colors :: "chunk list" where
  "doc_colors =
     [Text (svg_open ''10'' ''10''),
      PathElem (style_of ''#fefefe'') ''M0 0L9 0'', PathElem (style_of ''#f5f5f5'') ''M0 1L9 1'',
      PathElem (style_of ''#000000'') ''M0 2L9 2'', PathElem (style_of ''#f0e0e0'') ''M0 3L9 3'',
      PathElem (style_of ''#fff0ff'') ''M0 4L9 4'', PathElem (style_of ''#F1F1F1'') ''M0 5L9 5'',
      PathElem (style_of ''red'') ''M0 6L9 6'', PathElem (style_of ''#fff'') ''M0 7L9 7'',
      Text ''</svg>'']"

definition doc_colors_kept :: "chunk list" where
  "doc_colors_kept =
     [Text (svg_open ''10'' ''10''),
      PathElem (style_of ''#000000'') ''M0 2L9 2'', PathElem (style_of ''#f0e0e0'') ''M0 3L9 3'',
      PathElem (style_of ''#fff0ff'') ''M0 4L9 4'',
      PathElem (style_of ''red'') ''M0 6L9 6'', PathElem (style_of ''#fff'') ''M0 7L9 7'',
      Text ''</svg>'']"

text \<open>White paths in other forms: an element with an end tag, and a stroke given as an
  attribute of its own.\<close>

definition path_end_tag :: string where
  "path_end_tag = ''<path style='' @ [dq] @ ''stroke:#ffffff; fill:none;'' @ [dq] @ '' d='' @ [dq]
     @ ''M0 0L9 0'' @ [dq] @ ''></path>''"

definition path_stroke_attr :: string where
  "path_stroke_attr = ''<path stroke='' @ [dq] @ ''#ffffff'' @ [dq] @ '' d='' @ [dq] @ ''M0 0L9 0'' @ [dq] @ ''/>''"

section \<open>Properties\<close>

lemma show_nat_nonempty: "show_nat n \<noteq> []"
  by (induction n rule: show_nat.induct) (subst show_nat.simps, simp)

subsection \<open>Rounding to \<open>float64\<close>\<close>

lemma pow2_powi: "pow2 p = 2 powi p"
  by (simp add: pow2_def power_int_def power_inverse inverse_eq_divide power_one_over)

lemma pow2_pos [simp]: "0 < pow2 p"
  by (simp add: pow2_powi)

lemma pow2_neq0 [simp]: "pow2 p \<noteq> 0"
  by (simp add: pow2_powi)

lemma pow2_add: "pow2 (i + j) = pow2 i * pow2 j"
  by (simp add: pow2_powi power_int_add)

lemma pow2_mono: "i \<le> j \<Longrightarrow> pow2 i \<le> pow2 j"
  by (simp add: pow2_powi power_int_increasing)

lemma pow2_strict_mono: "i < j \<Longrightarrow> pow2 i < pow2 j"
  by (simp add: pow2_powi power_int_strict_increasing)

lemma pow2_less_imp: "pow2 i < pow2 j \<Longrightarrow> i < j"
  using pow2_mono [of j i] by (cases "i < j") auto

lemma pow2_nat: "0 \<le> k \<Longrightarrow> pow2 k = 2 ^ nat k"
  by (simp add: pow2_def)

lemma pow2_0 [simp]: "pow2 0 = 1"
  by (simp add: pow2_def)

lemma pow2_1 [simp]: "pow2 1 = 2"
  by (simp add: pow2_def)

lemma pow2_m1 [simp]: "pow2 (- 1) = 1 / 2"
  by (simp add: pow2_def)

lemma pow2_half: "pow2 p / 2 = pow2 (p - 1)"
  using pow2_add [of p "- 1"] by simp

lemma pow2_double: "2 * pow2 p = pow2 (p + 1)"
  using pow2_add [of p 1] by simp

lemma bitlen_pow2_bounds:
  assumes "0 < n"
  shows "pow2 (bitlen n - 1) \<le> of_int n" and "of_int n < pow2 (bitlen n)"
proof -
  from bitlen_bounds [OF assms] have
    lo: "2 ^ nat (bitlen n - 1) \<le> n" and hi: "n < 2 ^ nat (bitlen n)"
    by auto
  have b1: "1 \<le> bitlen n"
    using assms by (auto simp: bitlen_alt_def)
  have "(of_int (2 ^ nat (bitlen n - 1)) :: rat) \<le> of_int n"
    using lo by (simp only: of_int_le_iff)
  then show "pow2 (bitlen n - 1) \<le> of_int n"
    using b1 by (simp add: pow2_nat)
  have "(of_int n :: rat) < of_int (2 ^ nat (bitlen n))"
    using hi by (simp only: of_int_less_iff)
  then show "of_int n < pow2 (bitlen n)"
    using b1 by (simp add: pow2_nat)
qed

lemma ilog2_bounds:
  assumes "0 < a"
  shows "pow2 (ilog2 a) \<le> a \<and> a < pow2 (ilog2 a + 1)"
proof -
  obtain n d where nd: "quotient_of a = (n, d)"
    by (cases "quotient_of a") auto
  have dpos: "0 < d"
    using nd by (rule quotient_of_denom_pos)
  have a: "a = of_int n / of_int d"
    using nd by (rule quotient_of_div)
  have npos: "0 < n"
    using assms dpos a by (simp add: zero_less_divide_iff)
  let ?k = "bitlen n - bitlen d"
  have dq: "(0::rat) < of_int d"
    using dpos by simp
  have up: "a < pow2 (?k + 1)"
  proof -
    have "of_int n < pow2 (bitlen n)"
      by (rule bitlen_pow2_bounds [OF npos])
    also have "pow2 (bitlen n) = pow2 (?k + 1) * pow2 (bitlen d - 1)"
      by (simp flip: pow2_add)
    also have "\<dots> \<le> pow2 (?k + 1) * of_int d"
      using bitlen_pow2_bounds(1) [OF dpos] by (simp add: mult_left_mono less_imp_le)
    finally show ?thesis
      using dq by (simp add: a pos_divide_less_eq)
  qed
  have lo: "pow2 (?k - 1) < a"
  proof -
    have "pow2 (?k - 1) * of_int d < pow2 (?k - 1) * pow2 (bitlen d)"
      using bitlen_pow2_bounds(2) [OF dpos] by (simp add: mult_strict_left_mono)
    also have "\<dots> = pow2 (bitlen n - 1)"
      by (simp flip: pow2_add)
    also have "\<dots> \<le> of_int n"
      by (rule bitlen_pow2_bounds [OF npos])
    finally show ?thesis
      using dq by (simp add: a pos_less_divide_eq)
  qed
  show ?thesis
  proof (cases "pow2 ?k \<le> a")
    case True
    then have "ilog2 a = ?k"
      by (simp add: ilog2_def nd Let_def)
    with True up show ?thesis by simp
  next
    case False
    then have "ilog2 a = ?k - 1"
      by (simp add: ilog2_def nd Let_def)
    with False lo show ?thesis by simp
  qed
qed

lemma round_half_even_err: "\<bar>of_int (round_half_even s) - s\<bar> \<le> 1 / 2"
proof -
  have "of_int \<lfloor>s\<rfloor> \<le> s" and "s < of_int \<lfloor>s\<rfloor> + 1"
    by linarith+
  then show ?thesis
    by (auto simp: round_half_even_def Let_def)
qed

lemma round_half_even_nonneg: "0 \<le> s \<Longrightarrow> 0 \<le> round_half_even s"
  by (auto simp: round_half_even_def Let_def)

lemma round64_normal:
  assumes lo: "pow2 (- 1022) \<le> q" and hi: "q \<le> pow2 1023"
  shows "\<exists>r. round64 q = Fin r \<and> \<bar>r - q\<bar> \<le> q * eps"
proof -
  have qpos: "0 < q"
    using lo pow2_pos [of "- 1022"] by linarith
  let ?e = "ilog2 q"
  from ilog2_bounds [OF qpos] have e1: "pow2 ?e \<le> q" and e2: "q < pow2 (?e + 1)"
    by auto
  have "pow2 (- 1022) < pow2 (?e + 1)"
    using lo e2 by linarith
  then have elo: "- 1022 \<le> ?e"
    using pow2_less_imp [of "- 1022" "?e + 1"] by linarith
  have "pow2 ?e < pow2 1024"
    using e1 hi pow2_strict_mono [of 1023 1024] by linarith
  then have ehi: "?e < 1024"
    by (rule pow2_less_imp)
  let ?p = "?e - 52"
  have p: "max (?e - 52) (- 1074) = ?p"
    using elo by simp
  let ?n = "round_half_even (q / pow2 ?p)"
  let ?r = "of_int ?n * pow2 ?p"
  have "\<bar>of_int ?n - q / pow2 ?p\<bar> \<le> 1 / 2"
    by (rule round_half_even_err)
  then have "\<bar>of_int ?n - q / pow2 ?p\<bar> * pow2 ?p \<le> 1 / 2 * pow2 ?p"
    by (simp add: mult_right_mono less_imp_le)
  moreover have "\<bar>of_int ?n - q / pow2 ?p\<bar> * pow2 ?p = \<bar>?r - q\<bar>"
  proof -
    have "\<bar>of_int ?n - q / pow2 ?p\<bar> * pow2 ?p = \<bar>(of_int ?n - q / pow2 ?p) * pow2 ?p\<bar>"
      by (simp add: abs_mult less_imp_le)
    also have "(of_int ?n - q / pow2 ?p) * pow2 ?p = ?r - q"
      by (simp add: left_diff_distrib)
    finally show ?thesis .
  qed
  moreover have "1 / 2 * pow2 ?p = pow2 ?e * eps"
  proof -
    have "pow2 ?e * eps = pow2 (?e + - 53)"
      unfolding eps_def by (rule pow2_add [symmetric])
    moreover have "1 / 2 * pow2 ?p = pow2 (?p - 1)"
      using pow2_half [of ?p] by simp
    moreover have "?p - 1 = ?e + - 53"
      by simp
    ultimately show ?thesis
      by simp
  qed
  ultimately have err0: "\<bar>?r - q\<bar> \<le> pow2 ?e * eps"
    by simp
  have epos: "0 < eps"
    by (simp add: eps_def)
  have err: "\<bar>?r - q\<bar> \<le> q * eps"
    using err0 e1 epos by (meson mult_right_mono less_imp_le order_trans)
  have "eps < 1"
    using pow2_strict_mono [of "- 53" 0] by (simp add: eps_def)
  then have "q * eps < q"
    using qpos by simp
  then have "?r < 2 * q"
    using err by linarith
  also have "\<dots> \<le> pow2 1024"
    using hi pow2_double [of 1023] by simp
  finally have nov: "\<not> pow2 1024 \<le> ?r"
    by simp
  have "round64 q = Fin ?r"
    using qpos nov p by (simp add: round64_def Let_def)
  with err show ?thesis by blast
qed


lemma ilog2_unique:
  assumes "0 < a" and "pow2 e \<le> a" and "a < pow2 (e + 1)"
  shows "ilog2 a = e"
proof -
  from ilog2_bounds [OF assms(1)] have b1: "pow2 (ilog2 a) \<le> a" and b2: "a < pow2 (ilog2 a + 1)"
    by auto
  have "pow2 e < pow2 (ilog2 a + 1)"
    using assms(2) b2 by linarith
  then have "e < ilog2 a + 1"
    by (rule pow2_less_imp)
  moreover have "pow2 (ilog2 a) < pow2 (e + 1)"
    using assms(3) b1 by linarith
  then have "ilog2 a < e + 1"
    by (rule pow2_less_imp)
  ultimately show ?thesis
    by linarith
qed

lemma round_half_even_eq:
  assumes "of_int n - 1 / 2 < s" and "s < of_int n + 1 / 2"
  shows "round_half_even s = n"
proof (cases "of_int n \<le> s")
  case True
  then have "\<lfloor>s\<rfloor> = n"
    using assms by (intro floor_unique) linarith+
  then show ?thesis
    using assms by (simp add: round_half_even_def Let_def)
next
  case False
  then have "of_int (n - 1) \<le> s" and "s < of_int (n - 1) + 1"
    using assms by simp_all
  then have "\<lfloor>s\<rfloor> = n - 1"
    by (rule floor_unique)
  then show ?thesis
    using assms False by (simp add: round_half_even_def Let_def)
qed

text \<open>Evaluating \<open>round64\<close> from the exponent and the rounded significand.\<close>

lemma round64_eval:
  assumes "0 < q" and "pow2 e \<le> q" and "q < pow2 (e + 1)"
      and "p = max (e - 52) (- 1074)"
      and "of_int n - 1 / 2 < q / pow2 p" and "q / pow2 p < of_int n + 1 / 2"
      and "r = of_int n * pow2 p" and "r < pow2 1024"
  shows "round64 q = Fin r"
proof -
  have e: "ilog2 q = e"
    using assms(1-3) by (rule ilog2_unique)
  have n: "round_half_even (q / pow2 p) = n"
    using assms(5,6) by (rule round_half_even_eq)
  show ?thesis
    using assms(1,4,7,8) e n by (simp add: round64_def Let_def)
qed


lemma eps_pos: "0 < eps"
  by (simp add: eps_def)

lemma eps_le_half: "eps \<le> 1 / 2"
  using pow2_mono [of "- 53" "- 1"] by (simp add: eps_def)

lemma four_eps: "4 * eps = pow2 (- 51)"
proof -
  have "pow2 (- 51) = pow2 2 * pow2 (- 53)"
    by (simp flip: pow2_add)
  moreover have "pow2 2 = 4"
    by (simp add: pow2_def)
  ultimately show ?thesis
    by (simp add: eps_def)
qed

lemma in_range_pos: "in_range x \<Longrightarrow> 0 < x"
  by (auto simp: in_range_def intro: less_le_trans [OF pow2_pos])

lemma quotient_range:
  assumes "in_range m" and "in_range s"
  shows "pow2 (- 600) \<le> m / s \<and> m / s \<le> pow2 600"
proof -
  have spos: "0 < s" and mpos: "0 < m"
    using assms by (auto dest: in_range_pos)
  have "pow2 (- 600) * s \<le> pow2 (- 600) * pow2 300"
    using assms by (simp add: in_range_def mult_left_mono less_imp_le)
  also have "\<dots> = pow2 (- 300)"
    by (simp flip: pow2_add)
  also have "\<dots> \<le> m"
    using assms by (simp add: in_range_def)
  finally have lo: "pow2 (- 600) \<le> m / s"
    using spos by (simp add: pos_le_divide_eq)
  have "m \<le> pow2 300"
    using assms by (simp add: in_range_def)
  also have "\<dots> = pow2 600 * pow2 (- 300)"
    by (simp flip: pow2_add)
  also have "\<dots> \<le> pow2 600 * s"
    using assms by (simp add: in_range_def mult_left_mono less_imp_le)
  finally have hi: "m / s \<le> pow2 600"
    using spos by (simp add: pos_divide_le_eq)
  from lo hi show ?thesis ..
qed

text \<open>A correctly rounded quotient of two values in range.\<close>

lemma fl_quotient:
  assumes "in_range m" and "in_range s"
  shows "\<exists>a. round64 (m / s) = Fin a \<and> \<bar>a - m / s\<bar> \<le> m / s * eps \<and>
           pow2 (- 601) \<le> a \<and> a \<le> pow2 601"
proof -
  define x where "x = m / s"
  from quotient_range [OF assms] have lo: "pow2 (- 600) \<le> x" and hi: "x \<le> pow2 600"
    by (auto simp: x_def)
  have xpos: "0 < x"
    using lo by (rule less_le_trans [OF pow2_pos])
  have "pow2 (- 1022) \<le> x"
    using lo pow2_mono [of "- 1022" "- 600"] by linarith
  moreover have "x \<le> pow2 1023"
    using hi pow2_mono [of 600 1023] by linarith
  ultimately obtain a where a: "round64 x = Fin a" and err: "\<bar>a - x\<bar> \<le> x * eps"
    using round64_normal by blast
  have "x * eps \<le> x * (1 / 2)"
    using eps_le_half xpos by (intro mult_left_mono) simp_all
  then have e1: "x * eps \<le> x / 2"
    by simp
  have "x / 2 \<le> a"
    using err e1 by linarith
  moreover have "pow2 (- 601) \<le> x / 2"
    using lo pow2_half [of "- 600"] by simp
  ultimately have alo: "pow2 (- 601) \<le> a"
    by linarith
  have "a \<le> 2 * x"
    using err e1 xpos by linarith
  moreover have "2 * x \<le> pow2 601"
    using hi pow2_double [of 600] by simp
  ultimately have ahi: "a \<le> pow2 601"
    by linarith
  from a err alo ahi show ?thesis
    unfolding x_def by blast
qed

text \<open>The smaller of two perturbed values is a perturbation of the smaller value.\<close>

lemma min_perturbed:
  fixes a b x y e :: rat
  assumes "\<bar>a - x\<bar> \<le> x * e" and "\<bar>b - y\<bar> \<le> y * e" and "0 \<le> e" and "e \<le> 1"
      and "0 < x" and "0 < y"
  shows "\<bar>min a b - min x y\<bar> \<le> min x y * e"
proof -
  have lx: "min x y * (1 - e) \<le> x * (1 - e)" and ly: "min x y * (1 - e) \<le> y * (1 - e)"
    using assms by (simp_all add: mult_right_mono)
  have "x * (1 - e) \<le> a" and "y * (1 - e) \<le> b"
    using assms(1,2) by (simp_all add: abs_le_iff algebra_simps)
  with lx ly have lo: "min x y * (1 - e) \<le> min a b"
    by (simp add: min_def)
  have ax: "a \<le> x * (1 + e)" and bY: "b \<le> y * (1 + e)"
    using assms(1,2) by (simp_all add: abs_le_iff algebra_simps)
  have hi: "min a b \<le> min x y * (1 + e)"
  proof (cases "x \<le> y")
    case True
    then show ?thesis using ax by (simp add: min_def)
  next
    case False
    then show ?thesis using bY by (simp add: min_def)
  qed
  have "min x y * (1 - e) = min x y - min x y * e"
    by (simp add: right_diff_distrib)
  moreover have "min x y * (1 + e) = min x y + min x y * e"
    by (simp add: distrib_left)
  ultimately show ?thesis
    using lo hi by linarith
qed

text \<open>A correctly rounded product of a value in range and a perturbed scale.\<close>

lemma fl_product:
  assumes "in_range s" and "pow2 (- 601) \<le> c" and "c \<le> pow2 601"
      and "\<bar>c - S\<bar> \<le> S * eps" and "0 < S"
  shows "\<exists>w. round64 (s * c) = Fin w \<and> \<bar>w - s * S\<bar> \<le> s * S / 2 ^ 51"
proof -
  have spos: "0 < s"
    using assms by (auto dest: in_range_pos)
  have cpos: "0 < c"
    using assms pow2_pos [of "- 601"] by linarith
  have "pow2 (- 901) = pow2 (- 300) * pow2 (- 601)"
    by (simp flip: pow2_add)
  also have "\<dots> \<le> s * c"
    using assms spos cpos by (intro mult_mono) (simp_all add: in_range_def less_imp_le)
  finally have "pow2 (- 1022) \<le> s * c"
    using pow2_mono [of "- 1022" "- 901"] by linarith
  moreover have "s * c \<le> pow2 1023"
  proof -
    have "s * c \<le> pow2 300 * pow2 601"
      using assms spos cpos by (intro mult_mono) (simp_all add: in_range_def less_imp_le)
    also have "\<dots> = pow2 901"
      by (simp flip: pow2_add)
    finally show ?thesis
      using pow2_mono [of 901 1023] by linarith
  qed
  ultimately obtain w where w: "round64 (s * c) = Fin w" and err: "\<bar>w - s * c\<bar> \<le> s * c * eps"
    using round64_normal by blast
  define W where "W = s * S"
  define P where "P = s * c"
  have Wpos: "0 < W"
    using spos assms by (simp add: W_def)
  have sc: "\<bar>P - W\<bar> \<le> W * eps"
  proof -
    have "\<bar>s * c - s * S\<bar> = s * \<bar>c - S\<bar>"
      using spos by (simp add: abs_mult flip: right_diff_distrib)
    also have "\<dots> \<le> s * (S * eps)"
      using assms spos by (intro mult_left_mono) simp_all
    finally show ?thesis by (simp add: mult.assoc W_def P_def)
  qed
  have We: "W * eps \<le> W"
    using Wpos eps_le_half by (simp add: mult_le_cancel_left2)
  have "P \<le> W + W"
    using sc We by linarith
  then have "P * eps \<le> (W + W) * eps"
    using eps_pos by (intro mult_right_mono) simp_all
  then have e2: "P * eps \<le> 2 * (W * eps)"
    by (simp add: algebra_simps)
  have "\<bar>w - P\<bar> \<le> P * eps"
    using err by (simp add: P_def)
  then have "\<bar>w - W\<bar> \<le> 4 * (W * eps)"
    using e2 sc Wpos eps_pos by linarith
  also have "\<dots> = W * (4 * eps)"
    by simp
  also have "\<dots> = W / 2 ^ 51"
    by (simp add: four_eps) (simp add: pow2_def)
  finally show ?thesis
    using w by (auto simp: W_def)
qed


lemma computeFitScale_exact_pos:
  assumes "0 < sw" and "0 < sh" and "0 < mw" and "0 < mh"
  shows "computeFitScale_exact sw sh mw mh = (sw * min (mw / sw) (mh / sh), sh * min (mw / sw) (mh / sh))"
    and "0 < sw * min (mw / sw) (mh / sh)" and "0 < sh * min (mw / sw) (mh / sh)"
  using assms by (simp_all add: computeFitScale_exact_def Let_def)

text \<open>The code's result on inputs in range: finite, and close to the exact fit.\<close>

lemma scaleToFit_in_range:
  assumes "in_range sw" and "in_range sh" and "in_range mw" and "in_range mh"
  shows "\<exists>w h. scaleToFit (Fin sw) (Fin sh) (Fin mw) (Fin mh) = (Fin w, Fin h) \<and>
         \<bar>w - fst (computeFitScale_exact sw sh mw mh)\<bar> \<le> fst (computeFitScale_exact sw sh mw mh) / 2 ^ 51 \<and>
         \<bar>h - snd (computeFitScale_exact sw sh mw mh)\<bar> \<le> snd (computeFitScale_exact sw sh mw mh) / 2 ^ 51"
proof -
  have pos: "0 < sw" "0 < sh" "0 < mw" "0 < mh"
    using assms by (auto dest: in_range_pos)
  let ?x = "mw / sw" and ?y = "mh / sh"
  let ?S = "min ?x ?y"
  have ex: "computeFitScale_exact sw sh mw mh = (sw * ?S, sh * ?S)"
    using pos by (rule computeFitScale_exact_pos)
  from fl_quotient [OF assms(3) assms(1)] obtain a where
    a: "round64 ?x = Fin a" "\<bar>a - ?x\<bar> \<le> ?x * eps" "pow2 (- 601) \<le> a" "a \<le> pow2 601"
    by blast
  from fl_quotient [OF assms(4) assms(2)] obtain b where
    b: "round64 ?y = Fin b" "\<bar>b - ?y\<bar> \<le> ?y * eps" "pow2 (- 601) \<le> b" "b \<le> pow2 601"
    by blast
  let ?c = "min a b"
  have xy: "0 < ?x" "0 < ?y"
    using pos by simp_all
  have Spos: "0 < ?S"
    using xy by simp
  have cerr: "\<bar>?c - ?S\<bar> \<le> ?S * eps"
    using min_perturbed [OF a(2) b(2) _ _ xy] eps_pos eps_le_half by simp
  have clo: "pow2 (- 601) \<le> ?c" and chi: "?c \<le> pow2 601"
    using a b by (simp_all add: min_def)
  from fl_product [OF assms(1) clo chi cerr Spos] obtain w where
    w: "round64 (sw * ?c) = Fin w" "\<bar>w - sw * ?S\<bar> \<le> sw * ?S / 2 ^ 51"
    by blast
  from fl_product [OF assms(2) clo chi cerr Spos] obtain h where
    h: "round64 (sh * ?c) = Fin h" "\<bar>h - sh * ?S\<bar> \<le> sh * ?S / 2 ^ 51"
    by blast
  have "scaleToFit (Fin sw) (Fin sh) (Fin mw) (Fin mh) = (Fin w, Fin h)"
    using pos a(1) b(1) w(1) h(1)
    by (auto simp: scaleToFit_def f_le_def Let_def min_def)
  then show ?thesis
    using w(2) h(2) by (simp add: ex)
qed

text \<open>Hence the fitted size is strictly positive on inputs in range.\<close>

lemma scaleToFit_positive:
  assumes "in_range sw" and "in_range sh" and "in_range mw" and "in_range mh"
  shows "\<exists>w h. scaleToFit (Fin sw) (Fin sh) (Fin mw) (Fin mh) = (Fin w, Fin h) \<and> 0 < w \<and> 0 < h"
proof -
  have pos: "0 < sw" "0 < sh" "0 < mw" "0 < mh"
    using assms by (auto dest: in_range_pos)
  define W where "W = fst (computeFitScale_exact sw sh mw mh)"
  define H where "H = snd (computeFitScale_exact sw sh mw mh)"
  have WH: "0 < W" "0 < H"
    using computeFitScale_exact_pos [OF pos] by (simp_all add: W_def H_def)
  from scaleToFit_in_range [OF assms] obtain w h where
    eq: "scaleToFit (Fin sw) (Fin sh) (Fin mw) (Fin mh) = (Fin w, Fin h)"
    and w: "\<bar>w - W\<bar> \<le> W / 2 ^ 51" and h: "\<bar>h - H\<bar> \<le> H / 2 ^ 51"
    unfolding W_def H_def by blast
  have small: "W / 2 ^ 51 < W" "H / 2 ^ 51 < H"
    using WH by (simp_all add: divide_less_eq)
  have "0 < w" "0 < h"
    using w h small by linarith+
  with eq show ?thesis by blast
qed


subsection \<open>Evaluating the sample documents and jobs\<close>

lemma floor_numeral_div: "\<lfloor>numeral a / numeral b :: rat\<rfloor> = numeral a div numeral b"
  using floor_divide_of_int_eq [of "numeral a" "numeral b", where ?'a = rat] by simp

lemma round64_0 [simp]: "round64 0 = Fin 0"
  by (simp add: round64_def)

lemmas fmt_eval = fmt_f_def Let_def digit_char_def round_half_even_def show_nat.simps floor_numeral_div

text \<open>The arithmetic of the 832 by 832 document in a 50 by 50 box.\<close>

lemma div_50_832: "f_div (Fin 50) (Fin 832) = Fin (8660768514174031 / 144115188075855872)"
proof -
  have "round64 (50 / 832) = Fin (8660768514174031 / 144115188075855872)"
    by (rule round64_eval [where e = "- 5" and p = "- 57" and n = 8660768514174031])
       (simp_all add: pow2_def)
  then show ?thesis by simp
qed

lemma mul_832_scale: "f_mul (Fin 832) (Fin (8660768514174031 / 144115188075855872)) = Fin 50"
proof -
  have "round64 (832 * (8660768514174031 / 144115188075855872)) = Fin 50"
    by (rule round64_eval [where e = 5 and p = "- 47" and n = 7036874417766400])
       (simp_all add: pow2_def)
  then show ?thesis by simp
qed

lemma scaleToFit_832_50: "scaleToFit (Fin 832) (Fin 832) (Fin 50) (Fin 50) = (Fin 50, Fin 50)"
  by (simp add: scaleToFit_def f_le_def Let_def div_50_832 mul_832_scale del: f_div.simps f_mul.simps)

lemma div_832_50: "f_div (Fin 832) (Fin 50) = Fin (1170935903116329 / 70368744177664)"
proof -
  have "round64 (832 / 50) = Fin (1170935903116329 / 70368744177664)"
    by (rule round64_eval [where e = 4 and p = "- 48" and n = 4683743612465316])
       (simp_all add: pow2_def)
  then show ?thesis by simp
qed

lemma const_25_4: "f_25_4 = Fin (3574732204225331 / 140737488355328)"
  unfolding f_25_4_def
  by (rule round64_eval [where e = 4 and p = "- 48" and n = 7149464408450662])
     (simp_all add: pow2_def)

lemma mul_dpi:
  "f_mul (Fin (1170935903116329 / 70368744177664)) (Fin (3574732204225331 / 140737488355328))
     = Fin (7435442984788689 / 17592186044416)"
proof -
  have "round64 (1170935903116329 / 70368744177664 * (3574732204225331 / 140737488355328))
      = Fin (7435442984788689 / 17592186044416)"
    by (rule round64_eval [where e = 8 and p = "- 44" and n = 7435442984788689])
       (simp_all add: pow2_def)
  then show ?thesis by simp
qed

lemma dpi_832_50:
  "f_mul (f_div (Fin 832) (fst (scaleToFit (Fin 832) (Fin 832) (Fin 50) (Fin 50)))) f_25_4
     = Fin (7435442984788689 / 17592186044416)"
  by (simp only: scaleToFit_832_50 fst_conv div_832_50 const_25_4 mul_dpi)

lemma fmt_dpi: "fmt_f 4 (Fin (7435442984788689 / 17592186044416)) = ''422.6560''"
  by (simp add: fmt_eval)


lemma fmt_Inf: "fmt_f 4 PInf = ''+Inf''"
  by (simp add: fmt_f_def)

lemmas rx_eval = pathRegex_def hex6_def replace_path_def strokeRegex_def capture_hex6_def
  widthRe_def heightRe_def capture_number_def is_space_def is_digit_or_dot_def
  is_hex_def is_digit_def byte_def path_elem_def svg_open_def

lemma not_white_000000: "\<not> isNearWhite ''000000''"
  by (simp add: isNearWhite_def ParseInt16_def hex_val_def is_hex_def is_digit_def byte_def)

lemma white_fefefe: "isNearWhite ''fefefe''"
  by (simp add: isNearWhite_def ParseInt16_def hex_val_def is_hex_def is_digit_def byte_def)

lemma filter_doc_traced: "filterWhitePaths_bytes doc_traced = doc_filtered"
  by (simp add: filterWhitePaths_bytes_def doc_traced_def doc_filtered_def rx_eval
      not_white_000000 white_fefefe)

lemma ParseFloat_832: "ParseFloat ''832'' = (Fin 832, False)"
proof -
  have "round64 832 = Fin 832"
    by (rule round64_eval [where e = 9 and p = "- 43" and n = 7318349394477056])
       (simp_all add: pow2_def)
  then show ?thesis
    by (simp add: ParseFloat_def parse_plain_def decimal_val_def digit_val_def is_digit_def byte_def)
qed

lemma dims_doc_filtered: "getSVGDimensions (fs(p \<mapsto> doc_filtered)) p = (Fin 832, Fin 832)"
  by (simp add: getSVGDimensions_def doc_filtered_def rx_eval ParseFloat_832 Let_def)

lemma log_write_fields [simp]:
  "ToolOn (log_write s j) = ToolOn j" "ToolOff (log_write s j) = ToolOff j"
  "MaxWidth (log_write s j) = MaxWidth j" "MaxHeight (log_write s j) = MaxHeight j"
  "Status (log_write s j) = Status j" "UseAI (log_write s j) = UseAI j"
  "AIImageCached (log_write s j) = AIImageCached j" "GCodePath (log_write s j) = GCodePath j"
  by (simp_all add: log_write_def)

lemma log_output_fields [simp]:
  "ToolOn (log_output r j) = ToolOn j" "ToolOff (log_output r j) = ToolOff j"
  "MaxWidth (log_output r j) = MaxWidth j" "MaxHeight (log_output r j) = MaxHeight j"
  "Status (log_output r j) = Status j" "UseAI (log_output r j) = UseAI j"
  by (simp_all add: log_output_def Let_def)

lemmas scenario_defs = processJob_def trace_stage_def generate_stage_def run_process_def
  filterWhitePaths_def Let_def run_calls_def run_file_def run_job_def
  job50_def job_tiny_def job_ai_def col_stub_def proc_ok_def world0_def disk0_def lib0_def
  filter_doc_traced dims_doc_filtered

text \<open>The least positive maximum height: the quotient underflows to zero.\<close>

lemma div_tiny_832: "f_div (Fin min_subnormal) (Fin 832) = Fin 0"
proof -
  have "round64 (min_subnormal / 832) = Fin 0"
    unfolding min_subnormal_def
    by (rule round64_eval [where e = "- 1084" and p = "- 1074" and n = 0])
       (simp_all add: pow2_def)
  moreover have "(832 :: rat) \<noteq> 0"
    by simp
  ultimately show ?thesis
    by (simp only: f_div.simps if_False)
qed

lemma scaleToFit_tiny: "scaleToFit (Fin 832) (Fin 832) (Fin 50) (Fin min_subnormal) = (Fin 0, Fin 0)"
  by (simp add: scaleToFit_def f_le_def Let_def div_50_832 div_tiny_832 del: f_div.simps)

lemma dpi_tiny: "f_mul (f_div (Fin 832) (Fin 0)) f_25_4 = PInf"
  by (simp add: const_25_4)

subsection \<open>Vector post-processor\<close>

text \<open>
  \<^bold>\<open>Claim C2\<close> (the resolution of the Scale stage). The generate stage
  always starts the toolpath generator once, with the resolution
  \<open>svgWidth / fittedWidth * 25.4\<close> computed in \<open>float64\<close> from the document's declared
  size and its fit into the job's box, printed with four decimals. For the document that
  declares 832 by 832 and a box of 50 by 50 (AI disabled), the generator is started with
  \<open>--dpi 422.6560\<close>, since \<open>832 / 50 * 25.4 = 422.656\<close>; the filtered document keeps only
  the black path and the job ends \<open>done\<close>.
\<close>

theorem C2_resolution:
  "(\<exists>j w'. generate_stage lib col job w svgPath gcodePath = Finished j w' \<and>
      w_calls w' = w_calls w @
        [RunSvg2gcode [''--on'', ToolOn job, ''--off'', ToolOff job, ''--dpi'',
           fmt_f 4 (f_mul (f_div (fst (getSVGDimensions (files (w_disk w)) svgPath))
                        (fst (scaleToFit (fst (getSVGDimensions (files (w_disk w)) svgPath))
                                         (snd (getSVGDimensions (files (w_disk w)) svgPath))
                                         (MaxWidth job) (MaxHeight job))))
                   f_25_4),
           svgPath, ''-o'', gcodePath]])
   \<and> run_calls (processJob lib0 col_stub cache0 job50 world0 ''job'' ''job/input.png'' [] DefaultAIPrompt) =
     [RunAutotrace [''-centerline'', ''-color-count'', ''2'', ''-output-file'', ''job/output.svg'', ''job/input.png''],
      RunSvg2gcode [''--on'', ''S4 M0'', ''--off'', ''S4 M100'', ''--dpi'', ''422.6560'',
                    ''job/output.svg'', ''-o'', ''job/output.gcode'']]
   \<and> run_file (processJob lib0 col_stub cache0 job50 world0 ''job'' ''job/input.png'' [] DefaultAIPrompt)
       ''job/output.svg'' = Some doc_filtered
   \<and> map_option Status (run_job (processJob lib0 col_stub cache0 job50 world0 ''job'' ''job/input.png'' []
       DefaultAIPrompt)) = Some ''done''
   \<and> f_mul (f_div (Fin 832) (fst (scaleToFit (Fin 832) (Fin 832) (Fin 50) (Fin 50)))) f_25_4
       = Fin (7435442984788689 / 17592186044416)
   \<and> \<bar>7435442984788689 / 17592186044416 - 422656 / 1000\<bar> < (1 / 10 ^ 12 :: rat)"
proof (intro conjI)
  show "\<exists>j w'. generate_stage lib col job w svgPath gcodePath = Finished j w' \<and>
      w_calls w' = w_calls w @
        [RunSvg2gcode [''--on'', ToolOn job, ''--off'', ToolOff job, ''--dpi'',
           fmt_f 4 (f_mul (f_div (fst (getSVGDimensions (files (w_disk w)) svgPath))
                        (fst (scaleToFit (fst (getSVGDimensions (files (w_disk w)) svgPath))
                                         (snd (getSVGDimensions (files (w_disk w)) svgPath))
                                         (MaxWidth job) (MaxHeight job))))
                   f_25_4),
           svgPath, ''-o'', gcodePath]]"
    by (cases "p_err (svg2gcode col)")
       (simp_all add: generate_stage_def Let_def split_beta run_process_def)
  show "run_calls (processJob lib0 col_stub cache0 job50 world0 ''job'' ''job/input.png'' [] DefaultAIPrompt) =
     [RunAutotrace [''-centerline'', ''-color-count'', ''2'', ''-output-file'', ''job/output.svg'', ''job/input.png''],
      RunSvg2gcode [''--on'', ''S4 M0'', ''--off'', ''S4 M100'', ''--dpi'', ''422.6560'',
                    ''job/output.svg'', ''-o'', ''job/output.gcode'']]"
    by (simp add: scenario_defs scaleToFit_832_50 div_832_50 const_25_4 mul_dpi fmt_dpi
        del: f_div.simps f_mul.simps)
  show "run_file (processJob lib0 col_stub cache0 job50 world0 ''job'' ''job/input.png'' [] DefaultAIPrompt)
       ''job/output.svg'' = Some doc_filtered"
    by (simp add: scenario_defs scaleToFit_832_50 div_832_50 const_25_4 mul_dpi fmt_dpi
        del: f_div.simps f_mul.simps)
  show "map_option Status (run_job (processJob lib0 col_stub cache0 job50 world0 ''job'' ''job/input.png'' []
       DefaultAIPrompt)) = Some ''done''"
    by (simp add: scenario_defs scaleToFit_832_50 div_832_50 const_25_4 mul_dpi fmt_dpi
        del: f_div.simps f_mul.simps)
  show "f_mul (f_div (Fin 832) (fst (scaleToFit (Fin 832) (Fin 832) (Fin 50) (Fin 50)))) f_25_4
       = Fin (7435442984788689 / 17592186044416)"
    by (rule dpi_832_50)
  show "\<bar>7435442984788689 / 17592186044416 - 422656 / 1000\<bar> < (1 / 10 ^ 12 :: rat)"
    by simp
qed

text \<open>
  The claim as it is written gives \<open>422.624\<close> for that job. The code computes
  \<open>422.656\<close> (to the last bit of a \<open>float64\<close>), which is more than 0.03 away, and hands
  over the text \<open>422.6560\<close>.
\<close>

theorem C2_counterexample:
  "f_mul (f_div (Fin 832) (fst (scaleToFit (Fin 832) (Fin 832) (Fin 50) (Fin 50)))) f_25_4
     = Fin (7435442984788689 / 17592186044416)
   \<and> (3 / 100 :: rat) < \<bar>7435442984788689 / 17592186044416 - 422624 / 1000\<bar>
   \<and> fmt_f 4 (f_mul (f_div (Fin 832) (fst (scaleToFit (Fin 832) (Fin 832) (Fin 50) (Fin 50)))) f_25_4)
     = ''422.6560''
   \<and> fmt_f 4 (f_mul (f_div (Fin 832) (fst (scaleToFit (Fin 832) (Fin 832) (Fin 50) (Fin 50)))) f_25_4)
     \<noteq> ''422.6240''"
  by (simp only: dpi_832_50 fmt_dpi) simp

text \<open>The two inputs of the counterexample to the exact fit.\<close>


lemma div_500_97: "f_div (Fin 500) (Fin 97) = Fin (5803607767230021 / 1125899906842624)"
proof -
  have "round64 (500 / 97) = Fin (5803607767230021 / 1125899906842624)"
    by (rule round64_eval [where e = 2 and p = "- 50" and n = 5803607767230021])
       (simp_all add: pow2_def)
  then show ?thesis by simp
qed

lemma mul_97_scale: "f_mul (Fin 97) (Fin (5803607767230021 / 1125899906842624)) = Fin (8796093022208001 / 17592186044416)"
proof -
  have "round64 (97 * (5803607767230021 / 1125899906842624)) = Fin (8796093022208001 / 17592186044416)"
    by (rule round64_eval [where e = 8 and p = "- 44" and n = 8796093022208001])
       (simp_all add: pow2_def)
  then show ?thesis by simp
qed

lemma div_1_49: "f_div (Fin 1) (Fin 49) = Fin (5882252574524729 / 288230376151711744)"
proof -
  have "round64 (1 / 49) = Fin (5882252574524729 / 288230376151711744)"
    by (rule round64_eval [where e = "- 6" and p = "- 58" and n = 5882252574524729])
       (simp_all add: pow2_def)
  then show ?thesis by simp
qed

lemma mul_49_scale: "f_mul (Fin 49) (Fin (5882252574524729 / 288230376151711744)) = Fin (9007199254740991 / 9007199254740992)"
proof -
  have "round64 (49 * (5882252574524729 / 288230376151711744)) = Fin (9007199254740991 / 9007199254740992)"
    by (rule round64_eval [where e = "- 1" and p = "- 53" and n = 9007199254740991])
       (simp_all add: pow2_def)
  then show ?thesis by simp
qed


text \<open>
  \<^bold>\<open>Claim C3\<close> (fit to box). In exact arithmetic the fit of positive
  dimensions lies in the box, keeps the aspect ratio and touches the box in one
  direction. The code computes it in \<open>float64\<close>: for dimensions between \<open>2^-300\<close> and
  \<open>2^300\<close> its result is finite and within a relative error of \<open>2^-51\<close> of the exact
  fit, in each direction. For a non-positive source width or height the box is returned
  as it is.
\<close>

theorem C3_scaleToFit:
  "(0 < sw \<and> 0 < sh \<and> 0 < mw \<and> 0 < mh \<longrightarrow>
      fst (computeFitScale_exact sw sh mw mh) \<le> mw \<and>
      snd (computeFitScale_exact sw sh mw mh) \<le> mh \<and>
      fst (computeFitScale_exact sw sh mw mh) / sw = snd (computeFitScale_exact sw sh mw mh) / sh \<and>
      (fst (computeFitScale_exact sw sh mw mh) = mw \<or> snd (computeFitScale_exact sw sh mw mh) = mh))
   \<and> (in_range sw \<and> in_range sh \<and> in_range mw \<and> in_range mh \<longrightarrow>
      (\<exists>w h. scaleToFit (Fin sw) (Fin sh) (Fin mw) (Fin mh) = (Fin w, Fin h) \<and>
         \<bar>w - fst (computeFitScale_exact sw sh mw mh)\<bar> \<le> fst (computeFitScale_exact sw sh mw mh) / 2 ^ 51 \<and>
         \<bar>h - snd (computeFitScale_exact sw sh mw mh)\<bar> \<le> snd (computeFitScale_exact sw sh mw mh) / 2 ^ 51))
   \<and> (sw \<le> 0 \<or> sh \<le> 0 \<longrightarrow> scaleToFit (Fin sw) (Fin sh) maxW maxH = (maxW, maxH))"
proof (intro conjI impI)
  assume pos: "0 < sw \<and> 0 < sh \<and> 0 < mw \<and> 0 < mh"
  let ?S = "min (mw / sw) (mh / sh)"
  have ex: "computeFitScale_exact sw sh mw mh = (sw * ?S, sh * ?S)"
    using pos by (simp add: computeFitScale_exact_def Let_def)
  have "sw * ?S \<le> sw * (mw / sw)"
    using pos by (intro mult_left_mono) simp_all
  then show "fst (computeFitScale_exact sw sh mw mh) \<le> mw"
    using pos by (simp add: ex)
  have "sh * ?S \<le> sh * (mh / sh)"
    using pos by (intro mult_left_mono) simp_all
  then show "snd (computeFitScale_exact sw sh mw mh) \<le> mh"
    using pos by (simp add: ex)
  show "fst (computeFitScale_exact sw sh mw mh) / sw = snd (computeFitScale_exact sw sh mw mh) / sh"
    using pos by (simp add: ex)
  show "fst (computeFitScale_exact sw sh mw mh) = mw \<or> snd (computeFitScale_exact sw sh mw mh) = mh"
  proof (cases "mw / sw \<le> mh / sh")
    case True
    then have "sw * ?S = mw"
      using pos by (simp add: min_def)
    then show ?thesis by (simp add: ex)
  next
    case False
    then have "sh * ?S = mh"
      using pos by (simp add: min_def)
    then show ?thesis by (simp add: ex)
  qed
next
  assume "in_range sw \<and> in_range sh \<and> in_range mw \<and> in_range mh"
  then show "\<exists>w h. scaleToFit (Fin sw) (Fin sh) (Fin mw) (Fin mh) = (Fin w, Fin h) \<and>
         \<bar>w - fst (computeFitScale_exact sw sh mw mh)\<bar> \<le> fst (computeFitScale_exact sw sh mw mh) / 2 ^ 51 \<and>
         \<bar>h - snd (computeFitScale_exact sw sh mw mh)\<bar> \<le> snd (computeFitScale_exact sw sh mw mh) / 2 ^ 51"
    using scaleToFit_in_range by blast
next
  assume "sw \<le> 0 \<or> sh \<le> 0"
  then show "scaleToFit (Fin sw) (Fin sh) maxW maxH = (maxW, maxH)"
    by (auto simp: scaleToFit_def f_le_def)
qed



theorem C3_scaleToFit_witness:
  "(\<exists>w h. scaleToFit (Fin 832) (Fin 600) (Fin 50) (Fin 50) = (Fin w, Fin h) \<and>
      \<bar>w - 50\<bar> \<le> 50 / 2 ^ 51 \<and> \<bar>h - 1875 / 52\<bar> \<le> (1875 / 52) / 2 ^ 51)
   \<and> scaleToFit (Fin 0) (Fin 600) (Fin 50) (Fin 50) = (Fin 50, Fin 50)"
proof -
  have r: "in_range 832 \<and> in_range 600 \<and> in_range 50 \<and> in_range 50"
    by (simp add: in_range_def pow2_def)
  have ex: "computeFitScale_exact 832 600 50 50 = (50, 1875 / 52)"
    by (simp add: computeFitScale_exact_def Let_def)
  from C3_scaleToFit [of 832 600 50 50] C3_scaleToFit [of 0 600 50 50 "Fin 50" "Fin 50"] r ex
  show ?thesis
    by simp
qed

text \<open>
  The claim as stated fails in \<open>float64\<close>: a square of side 97 fitted into a box of side
  500 comes out wider than the box, and a square of side 49 fitted into a box of side 1
  touches the box in neither direction.
\<close>

theorem C3_counterexample:
  "scaleToFit (Fin 97) (Fin 97) (Fin 500) (Fin 500) =
     (Fin (8796093022208001 / 17592186044416), Fin (8796093022208001 / 17592186044416))
   \<and> (500 :: rat) < 8796093022208001 / 17592186044416
   \<and> scaleToFit (Fin 49) (Fin 49) (Fin 1) (Fin 1) =
     (Fin (9007199254740991 / 9007199254740992), Fin (9007199254740991 / 9007199254740992))
   \<and> (9007199254740991 / 9007199254740992 :: rat) < 1"
  by (simp add: scaleToFit_def f_le_def Let_def div_500_97 mul_97_scale div_1_49 mul_49_scale
      del: f_div.simps f_mul.simps)

lemma round64_nonneg:
  assumes "0 \<le> q"
  shows "round64 q = PInf \<or> (\<exists>r. round64 q = Fin r \<and> 0 \<le> r)"
proof (cases "q = 0")
  case True
  then show ?thesis by (simp add: round64_def)
next
  case False
  with assms have qpos: "0 < q" by simp
  have "0 \<le> round_half_even (\<bar>q\<bar> / pow2 (max (ilog2 \<bar>q\<bar> - 52) (- 1074)))"
    by (rule round_half_even_nonneg) (simp add: less_imp_le)
  then have "0 \<le> of_int (round_half_even (\<bar>q\<bar> / pow2 (max (ilog2 \<bar>q\<bar> - 52) (- 1074))))
      * pow2 (max (ilog2 \<bar>q\<bar> - 52) (- 1074))"
    by (simp add: less_imp_le)
  then show ?thesis
    using qpos by (auto simp: round64_def Let_def)
qed

lemma parse_plain_nonneg: "parse_plain s = Some q \<Longrightarrow> 0 \<le> q"
  by (auto simp: parse_plain_def Let_def split: list.splits if_splits)

lemma ParseFloat_nonneg:
  "fst (ParseFloat s) = PInf \<or> (\<exists>r. fst (ParseFloat s) = Fin r \<and> 0 \<le> r)"
proof (cases "parse_plain s")
  case None
  then show ?thesis by (simp add: ParseFloat_def)
next
  case (Some q)
  then show ?thesis
    using round64_nonneg [OF parse_plain_nonneg [OF Some]] by (simp add: ParseFloat_def)
qed

lemma default_positive:
  assumes "x = PInf \<or> (\<exists>r. x = Fin r \<and> 0 \<le> r)"
  shows "f_less (Fin 0) (if f_eq x (Fin 0) then Fin 100 else x)"
  using assms by auto

lemma dimension_positive:
  "f_less (Fin 0)
     (if f_eq (case m of Some t \<Rightarrow> fst (ParseFloat t) | None \<Rightarrow> Fin 0) (Fin 0) then Fin 100
      else (case m of Some t \<Rightarrow> fst (ParseFloat t) | None \<Rightarrow> Fin 0))"
proof (cases m)
  case None
  then show ?thesis by simp
next
  case (Some t)
  then show ?thesis
    using default_positive [OF ParseFloat_nonneg [of t]] by (auto split: if_splits)
qed

lemma getSVGDimensions_positive:
  "f_less (Fin 0) (fst (getSVGDimensions fs p)) \<and> f_less (Fin 0) (snd (getSVGDimensions fs p))"
proof (cases "fs p")
  case None
  then show ?thesis by (simp add: getSVGDimensions_def)
next
  case (Some data)
  then show ?thesis
    using dimension_positive [of "rx_find widthRe capture_number data"]
          dimension_positive [of "rx_find heightRe capture_number data"]
    by (simp add: getSVGDimensions_def Let_def)
qed

lemma f_less_not_le: "f_less (Fin 0) x \<Longrightarrow> \<not> f_le x (Fin 0)"
  by (cases x) (auto simp: f_le_def)

text \<open>
  \<^bold>\<open>Claim C10\<close> (positive dimensions). For every file,
  \<open>getSVGDimensions\<close> returns a strictly positive width and height (possibly \<open>+Inf\<close>);
  an unreadable file, a missing or unparsable attribute and an attribute that parses to 0
  give the default 100. So \<open>scaleToFit\<close> never takes its non-positive branch in the
  pipeline. When the declared and the maximum dimensions are finite and between
  \<open>2^-300\<close> and \<open>2^300\<close>, the fitted width is finite and strictly positive, so the
  resolution is the rounded quotient of two positive numbers.
\<close>

theorem C10_dimensions:
  "f_less (Fin 0) (fst (getSVGDimensions fs p)) \<and> f_less (Fin 0) (snd (getSVGDimensions fs p))
   \<and> \<not> (f_le (fst (getSVGDimensions fs p)) (Fin 0) \<or> f_le (snd (getSVGDimensions fs p)) (Fin 0))
   \<and> (fs p = None \<longrightarrow> getSVGDimensions fs p = (Fin 100, Fin 100))
   \<and> getSVGDimensions [p \<mapsto> ''<svg>''] p = (Fin 100, Fin 100)
   \<and> getSVGDimensions [p \<mapsto> svg_open ''0'' ''1.2.3''] p = (Fin 100, Fin 100)
   \<and> (getSVGDimensions fs p = (Fin sw, Fin sh) \<and> in_range sw \<and> in_range sh \<and> in_range mw \<and> in_range mh \<longrightarrow>
        (\<exists>w h. scaleToFit (Fin sw) (Fin sh) (Fin mw) (Fin mh) = (Fin w, Fin h) \<and> 0 < w \<and> 0 < h \<and>
           f_div (Fin sw) (Fin w) = round64 (sw / w)))"
proof (intro conjI impI)
  show "f_less (Fin 0) (fst (getSVGDimensions fs p))" and "f_less (Fin 0) (snd (getSVGDimensions fs p))"
    using getSVGDimensions_positive [of fs p] by simp_all
  show "\<not> (f_le (fst (getSVGDimensions fs p)) (Fin 0) \<or> f_le (snd (getSVGDimensions fs p)) (Fin 0))"
    using getSVGDimensions_positive [of fs p] by (simp add: f_less_not_le)
  show "getSVGDimensions [p \<mapsto> ''<svg>''] p = (Fin 100, Fin 100)"
    by (simp add: getSVGDimensions_def rx_eval Let_def)
  show "getSVGDimensions [p \<mapsto> svg_open ''0'' ''1.2.3''] p = (Fin 100, Fin 100)"
    by (simp add: getSVGDimensions_def rx_eval Let_def ParseFloat_def parse_plain_def decimal_val_def
        digit_val_def)
next
  assume "fs p = None"
  then show "getSVGDimensions fs p = (Fin 100, Fin 100)"
    by (simp add: getSVGDimensions_def)
next
  assume a: "getSVGDimensions fs p = (Fin sw, Fin sh) \<and> in_range sw \<and> in_range sh \<and> in_range mw \<and> in_range mh"
  then obtain w h where "scaleToFit (Fin sw) (Fin sh) (Fin mw) (Fin mh) = (Fin w, Fin h)" "0 < w" "0 < h"
    using scaleToFit_positive by blast
  then show "\<exists>w h. scaleToFit (Fin sw) (Fin sh) (Fin mw) (Fin mh) = (Fin w, Fin h) \<and> 0 < w \<and> 0 < h \<and>
           f_div (Fin sw) (Fin w) = round64 (sw / w)"
    by auto
qed

theorem C10_dimensions_witness:
  "f_less (Fin 0) (fst (getSVGDimensions [''job/output.svg'' \<mapsto> doc_filtered] ''job/output.svg''))
   \<and> getSVGDimensions Map.empty ''job/output.svg'' = (Fin 100, Fin 100)
   \<and> (\<exists>w h. scaleToFit (Fin 832) (Fin 832) (Fin 50) (Fin 50) = (Fin w, Fin h) \<and> 0 < w \<and> 0 < h)"
proof -
  have d: "getSVGDimensions [''job/output.svg'' \<mapsto> doc_filtered] ''job/output.svg'' = (Fin 832, Fin 832)"
    by (rule dims_doc_filtered)
  have r: "in_range 832 \<and> in_range 50"
    by (simp add: in_range_def pow2_def)
  from C10_dimensions [of "[''job/output.svg'' \<mapsto> doc_filtered]" "''job/output.svg''" 832 832 50 50]
       C10_dimensions [of Map.empty "''job/output.svg''"] d r
  show ?thesis
    by auto
qed

text \<open>
  The claim as stated fails at the least positive maximum height, \<open>5e-324\<close>: the
  quotient of the heights underflows to zero, the fitted width is zero and the resolution
  is a division by zero, \<open>+Inf\<close>, which is what the generator is started with.
\<close>

theorem C10_counterexample:
  "f_less (Fin 0) (MaxWidth job_tiny) \<and> f_less (Fin 0) (MaxHeight job_tiny)
   \<and> scaleToFit (Fin 832) (Fin 832) (MaxWidth job_tiny) (MaxHeight job_tiny) = (Fin 0, Fin 0)
   \<and> f_div (Fin 832) (fst (scaleToFit (Fin 832) (Fin 832) (MaxWidth job_tiny) (MaxHeight job_tiny))) = PInf
   \<and> run_calls (processJob lib0 col_stub cache0 job_tiny world0 ''job'' ''job/input.png'' [] DefaultAIPrompt) =
     [RunAutotrace [''-centerline'', ''-color-count'', ''2'', ''-output-file'', ''job/output.svg'', ''job/input.png''],
      RunSvg2gcode [''--on'', ''S4 M0'', ''--off'', ''S4 M100'', ''--dpi'', ''+Inf'',
                    ''job/output.svg'', ''-o'', ''job/output.gcode'']]"
proof (intro conjI)
  show "f_less (Fin 0) (MaxWidth job_tiny)" and "f_less (Fin 0) (MaxHeight job_tiny)"
    by (simp_all add: job_tiny_def job_ai_def min_subnormal_def)
  show "scaleToFit (Fin 832) (Fin 832) (MaxWidth job_tiny) (MaxHeight job_tiny) = (Fin 0, Fin 0)"
    by (simp add: job_tiny_def job_ai_def scaleToFit_tiny)
  then show "f_div (Fin 832) (fst (scaleToFit (Fin 832) (Fin 832) (MaxWidth job_tiny) (MaxHeight job_tiny))) = PInf"
    by simp
  show "run_calls (processJob lib0 col_stub cache0 job_tiny world0 ''job'' ''job/input.png'' [] DefaultAIPrompt) =
     [RunAutotrace [''-centerline'', ''-color-count'', ''2'', ''-output-file'', ''job/output.svg'', ''job/input.png''],
      RunSvg2gcode [''--on'', ''S4 M0'', ''--off'', ''S4 M100'', ''--dpi'', ''+Inf'',
                    ''job/output.svg'', ''-o'', ''job/output.gcode'']]"
    by (simp add: scenario_defs scaleToFit_tiny dpi_tiny fmt_Inf del: f_div.simps f_mul.simps)
qed

subsection \<open>Result cache\<close>

lemma find_filter_self: "find P (filter (\<lambda>x. \<not> P x) xs @ [r]) = (if P r then Some r else None)"
  by (induction xs) auto

lemma find_filter_none: "find P (filter (\<lambda>x. \<not> P x) xs) = None"
  by (induction xs) auto

lemma hex_EncodeToString_0: "hex_EncodeToString 0 = hash0"
  unfolding hash0_def by code_simp

lemma no_faults_env_ok: "no_faults env_ok"
  by (simp add: no_faults_def env_ok_def all_stmts_def)

lemma no_faults_db_err: "no_faults e \<Longrightarrow> db_err e st = None"
  by (cases st) (simp_all add: no_faults_def all_stmts_def)

text \<open>What a successful \<open>Store\<close> has done: the blob is written and the row replaces any
  row of the same key.\<close>

lemma Store_Ok:
  assumes "Store lib e c h p data mt d = (Ok res, d1)"
  shows "\<exists>rs. cache_rows d (c_db c) = Some rs \<and>
      res = \<lparr>Filename = take 16 h @ ''_'' @ show_int (now_nano e) @ mime_ext mt, MimeType = mt,
             FullPath = filepath_Join lib (c_cacheDir c) (take 16 h @ ''_'' @ show_int (now_nano e) @ mime_ext mt),
             Prompt = p\<rparr> \<and>
      files d1 = (files d)(FullPath res \<mapsto> data) \<and>
      cache_rows d1 (c_db c) = Some (filter (\<lambda>x. cache_key x \<noteq> MakeCacheKey lib h p) rs @
          [\<lparr>cache_key = MakeCacheKey lib h p, input_hash = h, prompt = p,
            output_filename = Filename res, mime_type = mt, created_at = current_timestamp e\<rparr>])"
  using assms
  by (auto simp: Store_def Let_def exec_def sql_upsert_def cache_rows_def open_db_def
      split: if_splits option.splits sum.splits table.splits)

lemma Lookup_hit:
  assumes "db_err e SelectRow = None"
      and "cache_rows d (c_db c) = Some rs"
      and "find (\<lambda>r. cache_key r = MakeCacheKey lib h p) rs = Some r"
      and "files d (filepath_Join lib (c_cacheDir c) (output_filename r)) \<noteq> None"
  shows "Lookup lib e c h p d =
     (Ok (Some \<lparr>Filename = output_filename r, MimeType = mime_type r,
                FullPath = filepath_Join lib (c_cacheDir c) (output_filename r), Prompt = prompt r\<rparr>), d)"
  using assms by (simp add: Lookup_def Let_def os_Stat_def os_IsNotExist_def split: option.splits)

text \<open>A restart on an index of the current layout changes nothing.\<close>

lemma NewAIImageCache_current:
  assumes "no_faults e" and "cache_rows d dbPath = Some rs" and "dbs d dbPath \<noteq> None"
  shows "NewAIImageCache lib e dbPath cacheDir d = (Ok \<lparr>c_db = dbPath, c_cacheDir = cacheDir\<rparr>, d)"
  using assms no_faults_db_err [OF assms(1)]
  by (auto simp: NewAIImageCache_def no_faults_def cache_rows_def open_db_def Let_def
      sql_create_if_not_exists_def migrateOldSchema_def sql_pragma_count_def map_upd_triv
      split: option.splits table.splits)

text \<open>
  \<^bold>\<open>Claim C5\<close> (round trip). If \<open>Store\<close> succeeds for a fingerprint, prompt, blob and media
  type, the next \<open>Lookup\<close> of the same fingerprint and prompt returns the stored file name,
  media type and prompt (the very result \<open>Store\<close> returned); so does a \<open>Lookup\<close> after the
  cache has been opened again, which leaves the persisted state as it was. The row is
  kept under the key \<open>fingerprint : first 16 hex digits of SHA-256(prompt)\<close>, a function of
  the pair alone.
\<close>

theorem C5_round_trip:
  assumes "Store lib e c h p data mt d = (Ok res, d1)"
      and "db_err e2 SelectRow = None" and "no_faults e3"
  shows "Lookup lib e2 c h p d1 = (Ok (Some res), d1) \<and>
         NewAIImageCache lib e3 (c_db c) (c_cacheDir c) d1 = (Ok c, d1) \<and>
         Filename res = take 16 h @ ''_'' @ show_int (now_nano e) @ mime_ext mt \<and>
         MimeType res = mt \<and> Prompt res = p \<and>
         (\<exists>rs r. cache_rows d1 (c_db c) = Some rs \<and>
            find (\<lambda>r. cache_key r = MakeCacheKey lib h p) rs = Some r \<and>
            cache_key r = h @ '':'' @ take 16 (hex_EncodeToString (sha256_Sum256 lib p)) \<and>
            output_filename r = Filename res \<and> mime_type r = mt \<and> prompt r = p)"
proof -
  from Store_Ok [OF assms(1)] obtain rs where
    rows: "cache_rows d (c_db c) = Some rs"
    and res: "res = \<lparr>Filename = take 16 h @ ''_'' @ show_int (now_nano e) @ mime_ext mt, MimeType = mt,
             FullPath = filepath_Join lib (c_cacheDir c) (take 16 h @ ''_'' @ show_int (now_nano e) @ mime_ext mt),
             Prompt = p\<rparr>"
    and fs: "files d1 = (files d)(FullPath res \<mapsto> data)"
    and rows1: "cache_rows d1 (c_db c) = Some (filter (\<lambda>x. cache_key x \<noteq> MakeCacheKey lib h p) rs @
          [\<lparr>cache_key = MakeCacheKey lib h p, input_hash = h, prompt = p,
            output_filename = Filename res, mime_type = mt, created_at = current_timestamp e\<rparr>])"
    by blast
  let ?row = "\<lparr>cache_key = MakeCacheKey lib h p, input_hash = h, prompt = p,
            output_filename = Filename res, mime_type = mt, created_at = current_timestamp e\<rparr>"
  have found: "find (\<lambda>r. cache_key r = MakeCacheKey lib h p)
      (filter (\<lambda>x. cache_key x \<noteq> MakeCacheKey lib h p) rs @ [?row]) = Some ?row"
    using find_filter_self [of "\<lambda>r. cache_key r = MakeCacheKey lib h p" rs ?row] by simp
  have blob: "files d1 (filepath_Join lib (c_cacheDir c) (output_filename ?row)) \<noteq> None"
    using fs res by simp
  have look: "Lookup lib e2 c h p d1 = (Ok (Some res), d1)"
    using Lookup_hit [OF assms(2) rows1 found blob] res by simp
  have dbs1: "dbs d1 (c_db c) \<noteq> None"
    using rows1 by (auto simp: cache_rows_def open_db_def empty_db_def split: option.splits)
  have restart: "NewAIImageCache lib e3 (c_db c) (c_cacheDir c) d1 = (Ok c, d1)"
    using NewAIImageCache_current [OF assms(3) rows1 dbs1] by simp
  show ?thesis
    using look restart res rows1 found
    by (simp add: MakeCacheKey_def hashString_def)
qed

text \<open>The round trip on the sample cache: store, look up, open again.\<close>

theorem C5_round_trip_witness:
  "\<exists>res d1. Store lib0 env_ok cache0 hash0 DefaultAIPrompt ''ART'' ''image/png'' disk0 = (Ok res, d1) \<and>
     Lookup lib0 env_ok cache0 hash0 DefaultAIPrompt d1 = (Ok (Some res), d1) \<and>
     NewAIImageCache lib0 env_ok ''ai_cache.db'' ''ai_cache'' d1 = (Ok cache0, d1) \<and>
     MimeType res = ''image/png'' \<and> Prompt res = DefaultAIPrompt"
proof -
  have "\<exists>res d1. Store lib0 env_ok cache0 hash0 DefaultAIPrompt ''ART'' ''image/png'' disk0 = (Ok res, d1)"
    by (simp add: Store_def Let_def exec_def sql_upsert_def open_db_def env_ok_def cache0_def
        hash0_def disk0_def db_fresh_def)
  then obtain res d1 where
    st: "Store lib0 env_ok cache0 hash0 DefaultAIPrompt ''ART'' ''image/png'' disk0 = (Ok res, d1)"
    by blast
  have sel: "db_err env_ok SelectRow = None"
    by (simp add: env_ok_def)
  from C5_round_trip [OF st sel no_faults_env_ok] st show ?thesis
    by (auto simp: cache0_def)
qed

text \<open>
  \<^bold>\<open>Claim C6\<close> (self-healing). If the index has a row for the key and \<open>os.Stat\<close> reports
  that the blob file the row names does not exist (the file is missing and \<open>os.Stat\<close> does
  not fail in another way), \<open>Lookup\<close> reports absent and leaves all files as they are;
  and if the \<open>DELETE\<close> it then issues succeeds, the row is gone from the index afterwards
  (the other rows are as before) and a second \<open>Lookup\<close> finds nothing as well.
\<close>

theorem C6_self_healing:
  assumes "db_err e SelectRow = None"
      and "cache_rows d (c_db c) = Some rs"
      and "find (\<lambda>r. cache_key r = MakeCacheKey lib h p) rs = Some r"
      and "files d (filepath_Join lib (c_cacheDir c) (output_filename r)) = None"
      and "stat_err e (filepath_Join lib (c_cacheDir c) (output_filename r)) = None"
  shows "\<exists>d'. Lookup lib e c h p d = (Ok None, d') \<and> files d' = files d \<and>
           (delete_err e = None \<longrightarrow>
              cache_rows d' (c_db c) = Some (filter (\<lambda>x. cache_key x \<noteq> MakeCacheKey lib h p) rs) \<and>
              find (\<lambda>r. cache_key r = MakeCacheKey lib h p)
                (filter (\<lambda>x. cache_key x \<noteq> MakeCacheKey lib h p) rs) = None \<and>
              Lookup lib e c h p d' = (Ok None, d'))"
  using assms find_filter_none [of "\<lambda>r. cache_key r = MakeCacheKey lib h p" rs]
  by (simp add: Lookup_def Let_def os_Stat_def os_IsNotExist_def sql_delete_def
      set_cache_rows_def cache_rows_def open_db_def split: option.splits)

theorem C6_self_healing_witness:
  "\<exists>d'. Lookup lib0 env_ok cache0 hash0 DefaultAIPrompt disk_stale = (Ok None, d') \<and>
     cache_rows d' ''ai_cache.db'' = Some [] \<and> files d' = files disk_stale \<and>
     Lookup lib0 env_ok cache0 hash0 DefaultAIPrompt d' = (Ok None, d')"
proof -
  have sel: "db_err env_ok SelectRow = None"
    by (simp add: env_ok_def)
  have rows: "cache_rows disk_stale (c_db cache0) = Some [row0]"
    by (simp add: cache_rows_def open_db_def disk_stale_def cache0_def)
  have found: "find (\<lambda>r. cache_key r = MakeCacheKey lib0 hash0 DefaultAIPrompt) [row0] = Some row0"
    by (simp add: row0_def)
  have gone: "files disk_stale (filepath_Join lib0 (c_cacheDir cache0) (output_filename row0)) = None"
    by (simp add: disk_stale_def lib0_def cache0_def row0_def)
  have stat: "stat_err env_ok (filepath_Join lib0 (c_cacheDir cache0) (output_filename row0)) = None"
    by (simp add: env_ok_def)
  have del: "delete_err env_ok = None"
    by (simp add: env_ok_def)
  from C6_self_healing [OF sel rows found gone stat] del show ?thesis
    by (auto simp: cache0_def row0_def)
qed

text \<open>
  The claim as it is written fails on the code, which takes the blob for missing only when
  the error of \<open>os.Stat\<close> is one of non-existence, and discards the error of the \<open>DELETE\<close>.
  On the sample index, whose one row names a blob that is not there: when \<open>os.Stat\<close> fails
  with \<open>ENOTDIR\<close>, \<open>Lookup\<close> returns the entry, with the path of the missing file, and
  keeps the row; and when \<open>os.Stat\<close> reports non-existence but the \<open>DELETE\<close> fails,
  \<open>Lookup\<close> reports absent and the row is still there.
\<close>

theorem C6_counterexample:
  "files disk_stale ''ai_cache/0000000000000000_1.png'' = None \<and>
   Lookup lib0 env_notdir cache0 hash0 DefaultAIPrompt disk_stale =
     (Ok (Some \<lparr>Filename = ''0000000000000000_1.png'', MimeType = ''image/png'',
                FullPath = ''ai_cache/0000000000000000_1.png'', Prompt = DefaultAIPrompt\<rparr>), disk_stale) \<and>
   Lookup lib0 env_delete_locked cache0 hash0 DefaultAIPrompt disk_stale = (Ok None, disk_stale) \<and>
   cache_rows disk_stale ''ai_cache.db'' = Some [row0]"
  by (simp add: Lookup_def Let_def os_Stat_def os_IsNotExist_def sql_delete_def env_notdir_def
      env_delete_locked_def env_ok_def cache_rows_def open_db_def disk_stale_def cache0_def
      row0_def lib0_def)



lemma migrate_keys_distinct:
  "distinct (map old_input_hash rs) \<Longrightarrow> distinct (map cache_key (map (migrate_row lib) rs))"
  by (induction rs) (auto simp: migrate_row_def)

text \<open>
  \<^bold>\<open>Claim C8\<close> (migration). An index whose table has the legacy layout, with \<open>N\<close> rows
  of distinct fingerprints (the legacy primary key), is migrated when the cache is
  opened: afterwards the table has the current layout and exactly \<open>N\<close> rows, the
  \<open>i\<close>-th made from the \<open>i\<close>-th legacy row, with the default prompt, the key
  \<open>fingerprint : first 16 hex digits of SHA-256(default prompt)\<close> and the legacy row's
  fingerprint, file name and media type; the legacy table is dropped.
\<close>

theorem C8_migration:
  assumes "dbs d dbPath = Some \<lparr>ai_image_cache = Some (LegacyTable rs), ai_image_cache_old = None\<rparr>"
      and "distinct (map old_input_hash rs)"
      and "no_faults e"
  shows "\<exists>d'. NewAIImageCache lib e dbPath cacheDir d = (Ok \<lparr>c_db = dbPath, c_cacheDir = cacheDir\<rparr>, d') \<and>
           dbs d' dbPath = Some \<lparr>ai_image_cache = Some (CacheTable (map (migrate_row lib) rs)),
                                 ai_image_cache_old = None\<rparr> \<and>
           length (map (migrate_row lib) rs) = length rs \<and>
           (\<forall>i < length rs.
              prompt (map (migrate_row lib) rs ! i) = DefaultAIPrompt \<and>
              cache_key (map (migrate_row lib) rs ! i) =
                old_input_hash (rs ! i) @ '':'' @ take 16 (hex_EncodeToString (sha256_Sum256 lib DefaultAIPrompt)) \<and>
              input_hash (map (migrate_row lib) rs ! i) = old_input_hash (rs ! i) \<and>
              output_filename (map (migrate_row lib) rs ! i) = old_output_filename (rs ! i) \<and>
              mime_type (map (migrate_row lib) rs ! i) = old_mime_type (rs ! i))"
  using assms migrate_keys_distinct [OF assms(2), of lib] no_faults_db_err [OF assms(3)]
  by (auto simp: NewAIImageCache_def no_faults_def open_db_def Let_def
      sql_create_if_not_exists_def migrateOldSchema_def sql_pragma_count_def exec_def
      sql_rename_old_def sql_create_new_def sql_copy_rows_def sql_drop_old_def
      migrate_row_def hashString_def)

theorem C8_migration_witness:
  "\<exists>d'. NewAIImageCache lib0 env_ok ''ai_cache.db'' ''ai_cache'' disk_legacy = (Ok cache0, d') \<and>
     dbs d' ''ai_cache.db'' = Some \<lparr>ai_image_cache = Some (CacheTable (map (migrate_row lib0) legacy_rows0)),
                                     ai_image_cache_old = None\<rparr> \<and>
     length (map (migrate_row lib0) legacy_rows0) = 2"
proof -
  have db: "dbs disk_legacy ''ai_cache.db'' =
      Some \<lparr>ai_image_cache = Some (LegacyTable legacy_rows0), ai_image_cache_old = None\<rparr>"
    by (simp add: disk_legacy_def)
  have dist: "distinct (map old_input_hash legacy_rows0)"
    by (simp add: legacy_rows0_def)
  from C8_migration [OF db dist no_faults_env_ok, of lib0 "''ai_cache''"] show ?thesis
    by (auto simp: cache0_def legacy_rows0_def)
qed

subsection \<open>Job pipeline\<close>

text \<open>
  \<^bold>\<open>Claim C9\<close> (missing credential). For a job with the AI flag set whose input file
  was hashed: if the cache lookup is not a hit and the caller supplied no credential,
  the job ends with status \<open>error\<close>, its log ends with the line that names the missing
  API key, and no request or process was started (the recorded calls are unchanged). If
  the lookup is a hit, the job goes on to the trace stage with the cached image, marked
  as cache-served, and its run is the same for every credential, the empty one included.
\<close>

theorem C9_missing_credential:
  assumes "UseAI job"
      and "HashFile lib (files (w_disk w)) inputPath = Ok h"
      and "Lookup lib (cache_env col) cache h aiPrompt (w_disk w) = (looked, d)"
  shows "((\<forall>res. looked \<noteq> Ok (Some res)) \<longrightarrow>
           (\<exists>j w'. processJob lib col cache job w jobDir inputPath [] aiPrompt = Finished j w' \<and>
              Status j = ''error'' \<and> w_calls w' = w_calls w \<and>
              (\<exists>pre. Log j = pre @ ''Error: AI transformation enabled but no API key provided'' @ [nl])))
       \<and> (\<forall>res. looked = Ok (Some res) \<longrightarrow>
           (\<exists>job'. processJob lib col cache job w jobDir inputPath [] aiPrompt =
                trace_stage lib col job' (w\<lparr>w_disk := d\<rparr>) jobDir (FullPath res) \<and>
              (\<forall>apiKey. processJob lib col cache job w jobDir inputPath apiKey aiPrompt =
                 processJob lib col cache job w jobDir inputPath [] aiPrompt) \<and>
              AIImageCached job' \<and> Status job' = Status job))"
  using assms
  by (auto simp: processJob_def ai_stage_def Let_def ai_error_def log_write_def
      split: result.splits option.splits)

text \<open>A miss without a credential, and a hit without a credential, on the sample inputs.\<close>

theorem C9_missing_credential_witness:
  "(\<exists>j w'. processJob lib0 col_net_down cache0 job_ai world0 ''job'' ''job/input.png'' [] DefaultAIPrompt
              = Finished j w' \<and> Status j = ''error'' \<and> w_calls w' = [])
   \<and> (\<exists>job'. processJob lib0 col_net_down cache0 job_ai world_cached ''job'' ''job/input.png'' [] DefaultAIPrompt
              = trace_stage lib0 col_net_down job' world_cached ''job'' ''ai_cache/0000000000000000_1.png''
              \<and> AIImageCached job')"
proof -
  have ai: "UseAI job_ai"
    by (simp add: job_ai_def)
  have h0: "HashFile lib0 (files (w_disk world0)) ''job/input.png'' = Ok hash0"
    by (simp add: HashFile_def world0_def disk0_def lib0_def hex_EncodeToString_0)
  have h1: "HashFile lib0 (files (w_disk world_cached)) ''job/input.png'' = Ok hash0"
    by (simp add: HashFile_def world_cached_def disk_cached_def disk_stale_def lib0_def hex_EncodeToString_0)
  have miss: "Lookup lib0 (cache_env col_net_down) cache0 hash0 DefaultAIPrompt (w_disk world0) = (Ok None, disk0)"
    by (simp add: Lookup_def Let_def os_Stat_def os_IsNotExist_def col_net_down_def env_ok_def cache_rows_def open_db_def
        world0_def disk0_def db_fresh_def cache0_def)
  have hit: "Lookup lib0 (cache_env col_net_down) cache0 hash0 DefaultAIPrompt (w_disk world_cached) =
      (Ok (Some \<lparr>Filename = ''0000000000000000_1.png'', MimeType = ''image/png'',
                 FullPath = ''ai_cache/0000000000000000_1.png'', Prompt = DefaultAIPrompt\<rparr>), disk_cached)"
    by (simp add: Lookup_def Let_def os_Stat_def os_IsNotExist_def col_net_down_def env_ok_def cache_rows_def open_db_def
        world_cached_def disk_cached_def disk_stale_def cache0_def row0_def lib0_def)
  have same: "world_cached\<lparr>w_disk := disk_cached\<rparr> = world_cached"
    by (simp add: world_cached_def)
  from C9_missing_credential [OF ai h0 miss, of "''job''"]
       C9_missing_credential [OF ai h1 hit, of "''job''"] same
  show ?thesis
    by (auto simp: world0_def)
qed

text \<open>
  \<^bold>\<open>Claim C1\<close> (the credential stays out of the log). The claim fails on the code: when
  the transport fails, \<open>callGeminiAPI\<close> wraps the error of \<open>client.Do\<close>, whose text holds the
  request URL with its \<open>key\<close> parameter, and \<open>processJob\<close> writes that text to the job log.
  Two runs on the sample job with an unreachable service, alike but for the credential,
  end with logs that differ, each holding its credential.
\<close>

theorem C1_credential_in_log:
  "run_job (processJob lib0 col_net_down cache0 job_ai world0 ''job'' ''job/input.png'' ''SECRET1'' DefaultAIPrompt) =
     Some (job_ai\<lparr>Status := ''error'', Log :=
       ''=== Running AI Image Transformation ==='' @ [nl] @
       ''Input image hash: 0000000000000000'' @ [nl] @
       ''Cache MISS - calling Gemini API...'' @ [nl] @
       ''AI transformation error: API request failed: Post '' @ [dq] @
       ''https://generativelanguage.googleapis.com/v1beta/models/gemini-2.0-flash-exp:generateContent?key=SECRET1''
       @ [dq] @ '': dial tcp: lookup generativelanguage.googleapis.com: no such host'' @ [nl]\<rparr>)
   \<and> run_job (processJob lib0 col_net_down cache0 job_ai world0 ''job'' ''job/input.png'' ''SECRET2'' DefaultAIPrompt) =
     Some (job_ai\<lparr>Status := ''error'', Log :=
       ''=== Running AI Image Transformation ==='' @ [nl] @
       ''Input image hash: 0000000000000000'' @ [nl] @
       ''Cache MISS - calling Gemini API...'' @ [nl] @
       ''AI transformation error: API request failed: Post '' @ [dq] @
       ''https://generativelanguage.googleapis.com/v1beta/models/gemini-2.0-flash-exp:generateContent?key=SECRET2''
       @ [dq] @ '': dial tcp: lookup generativelanguage.googleapis.com: no such host'' @ [nl]\<rparr>)"
  by (simp add: processJob_def ai_stage_def Let_def ai_error_def log_write_def lib0_def col_net_down_def
      cache0_def job_ai_def world0_def disk0_def HashFile_def hex_EncodeToString_0 hash0_def Lookup_def
      env_ok_def cache_rows_def open_db_def db_fresh_def MakeCacheKey_def hashString_def
      ai_call_and_store_def callGeminiAPI_def gemini_url_def input_mime_type_def run_job_def)

subsection \<open>The path filter\<close>

text \<open>
  How the backtracking search of \<open>pathRegex\<close> runs on a path element of the tracer's
  form, whatever follows it: it matches exactly the element when the style names a colour
  of six hexadecimal digits, and fails otherwise.
\<close>

lemma rx_lit_prefix: "rx_lit l k s = (if prefix l s then k (drop (length l) s) else None)"
  by (induction l k s rule: rx_lit.induct) auto

lemma star_skip: "list_all p u \<Longrightarrow> rx_star p k w = Some r \<Longrightarrow> rx_star p k (u @ w) = Some r"
  by (induction u) auto

lemma cls_run:
  "\<not> p q \<Longrightarrow> rx_match (replicate n (Cls p)) k (s @ q # y) =
     (if n \<le> length s \<and> list_all p (take n s) then k (drop n s @ q # y) else None)"
proof (induction n arbitrary: s)
  case 0
  then show ?case by simp
next
  case (Suc n)
  then show ?case by (cases s) auto
qed

lemma hex6_replicate: "hex6 = replicate 6 (Cls is_hex)"
  by (simp add: hex6_def eval_nat_numeral)

lemma rx_match_append: "rx_match (xs @ ys) k = rx_match xs (rx_match ys k)"
  by (induction xs) auto

lemma item_Lit [simp]: "rx_item_match (Lit l) k = rx_lit l k"
  by (rule ext) simp

lemma item_Star [simp]: "rx_item_match (Star p) k = rx_star p k"
  by (rule ext) simp

lemma not_hex_dq: "\<not> is_hex dq"
  by (simp add: is_hex_def is_digit_def byte_def)

lemma tail_match:
  assumes "list_all (\<lambda>c. c \<noteq> dq) t" and "list_all (\<lambda>c. c \<noteq> CHR ''>'') a"
  shows "rx_match [Star (\<lambda>c. c \<noteq> dq), Lit [dq], Star (\<lambda>c. c \<noteq> CHR ''>''), Lit ''/>''] Some
           (t @ dq # a @ ''/>'' @ rest) = Some rest"
proof -
  have "rx_star (\<lambda>c. c \<noteq> CHR ''>'') (rx_lit ''/>'' Some) (a @ ''/>'' @ rest) = Some rest"
    by (rule star_skip [OF assms(2)]) simp
  then have "rx_star (\<lambda>c. c \<noteq> dq) (rx_lit [dq] (rx_star (\<lambda>c. c \<noteq> CHR ''>'') (rx_lit ''/>'' Some)))
      (dq # a @ ''/>'' @ rest) = Some rest"
    by simp
  from star_skip [OF assms(1) this] show ?thesis
    by simp
qed

lemma prefix_before: "prefix l (s @ q # y) \<Longrightarrow> q \<notin> set l \<Longrightarrow> prefix l s"
  by (auto simp: prefix_append prefix_Cons)

lemma stroke_head:
  assumes "list_all (\<lambda>c. c \<noteq> dq) s" and "list_all (\<lambda>c. c \<noteq> CHR ''>'') a"
  shows "rx_match (Lit ''stroke:#'' # hex6 @ [Star (\<lambda>c. c \<noteq> dq), Lit [dq], Star (\<lambda>c. c \<noteq> CHR ''>''), Lit ''/>'']) Some
           (s @ dq # a @ ''/>'' @ rest) =
         (if prefix ''stroke:#'' s \<and> 6 \<le> length (drop 8 s) \<and> list_all is_hex (take 6 (drop 8 s))
          then Some rest else None)"
proof (cases "prefix ''stroke:#'' s")
  case False
  then have "\<not> prefix ''stroke:#'' (s @ dq # a @ ''/>'' @ rest)"
    using prefix_before [of "''stroke:#''" s dq] by auto
  then show ?thesis
    using False by (simp add: rx_lit_prefix)
next
  case True
  then obtain s' where s: "s = ''stroke:#'' @ s'"
    by (auto simp: prefix_def)
  have nq: "list_all (\<lambda>c. c \<noteq> dq) (drop 6 s')"
    using assms(1) s by (auto simp: list_all_iff dest: in_set_dropD)
  have run: "rx_match (replicate 6 (Cls is_hex)) k (s' @ dq # y) =
      (if 6 \<le> length s' \<and> list_all is_hex (take 6 s') then k (drop 6 s' @ dq # y) else None)" for k :: "string \<Rightarrow> string option" and y
    by (rule cls_run) (rule not_hex_dq)
  have "rx_match (hex6 @ [Star (\<lambda>c. c \<noteq> dq), Lit [dq], Star (\<lambda>c. c \<noteq> CHR ''>''), Lit ''/>'']) Some
      (s' @ dq # a @ ''/>'' @ rest) =
      (if 6 \<le> length s' \<and> list_all is_hex (take 6 s') then Some rest else None)"
    unfolding rx_match_append hex6_replicate run
    using tail_match [OF nq assms(2), of rest]
    by simp
  then show ?thesis
    using s by simp
qed

lemma style_value_match:
  assumes "list_all (\<lambda>c. c \<noteq> dq) sv" and "list_all (\<lambda>c. c \<noteq> CHR ''>'') a"
  shows "rx_star (\<lambda>c. c \<noteq> dq)
           (rx_match (Lit ''stroke:#'' # hex6 @ [Star (\<lambda>c. c \<noteq> dq), Lit [dq], Star (\<lambda>c. c \<noteq> CHR ''>''), Lit ''/>'']) Some)
           (sv @ dq # a @ ''/>'' @ rest) =
         (if stroke_hex sv \<noteq> None then Some rest else None)"
proof -
  define K where "K = rx_match (Lit ''stroke:#'' # hex6 @ [Star (\<lambda>c. c \<noteq> dq), Lit [dq], Star (\<lambda>c. c \<noteq> CHR ''>''), Lit ''/>'']) Some"
  define y where "y = a @ ''/>'' @ rest"
  have head: "K (s @ dq # y) =
      (if prefix ''stroke:#'' s \<and> 6 \<le> length (drop 8 s) \<and> list_all is_hex (take 6 (drop 8 s))
       then Some rest else None)" if "list_all (\<lambda>c. c \<noteq> dq) s" for s
    unfolding K_def y_def by (rule stroke_head [OF that assms(2)])
  have "rx_star (\<lambda>c. c \<noteq> dq) K (sv @ dq # y) = (if stroke_hex sv \<noteq> None then Some rest else None)"
    using assms(1)
  proof (induction sv)
    case Nil
    show ?case
      using head [of "[]"] by simp
  next
    case (Cons c cs)
    then have nq: "list_all (\<lambda>c. c \<noteq> dq) cs" and c: "c \<noteq> dq"
      by simp_all
    have hd: "K (c # cs @ dq # y) =
        (if prefix ''stroke:#'' (c # cs) \<and> 6 \<le> length (drop 8 (c # cs)) \<and> list_all is_hex (take 6 (drop 8 (c # cs)))
         then Some rest else None)"
      using head [OF Cons.prems] by (simp only: append_Cons)
    have step: "rx_star (\<lambda>c. c \<noteq> dq) K (c # cs @ dq # y) =
        (case rx_star (\<lambda>c. c \<noteq> dq) K (cs @ dq # y) of Some r \<Rightarrow> Some r | None \<Rightarrow> K (c # cs @ dq # y))"
      using c by (simp only: rx_star.simps not_False_eq_True if_True)
    have "rx_star (\<lambda>c. c \<noteq> dq) K (c # cs @ dq # y) = (if stroke_hex (c # cs) \<noteq> None then Some rest else None)"
      unfolding step Cons.IH [OF nq] hd
      by (simp only: stroke_hex.simps) (simp split: if_splits)
    then show ?case
      by (simp only: append_Cons)
  qed
  then show ?thesis
    by (simp add: K_def y_def)
qed

lemma prefix_upto:
  "prefix (l @ [q]) (t @ q # w) \<Longrightarrow> q \<notin> set l \<Longrightarrow> q \<notin> set t \<Longrightarrow> t = l"
proof (induction l arbitrary: t)
  case Nil
  then show ?case by (cases t) auto
next
  case (Cons a l)
  then show ?case by (cases t) auto
qed

lemma lit_attr_none:
  assumes "attr_value t"
  shows "rx_lit (''style='' @ [dq]) k (t @ dq # w) = None"
proof -
  have "\<not> prefix (''style='' @ [dq]) (t @ dq # w)"
  proof
    assume "prefix (''style='' @ [dq]) (t @ dq # w)"
    then have "t = ''style=''"
      using assms by (intro prefix_upto [of _ dq _ w]) (auto simp: attr_value_def list_all_iff)
    then show False
      using assms by (simp add: attr_value_def)
  qed
  then show ?thesis
    by (simp only: rx_lit_prefix if_False)
qed

lemma star_none_attr:
  assumes "attr_value t"
      and "rx_star (\<lambda>c. c \<noteq> CHR ''>'') (rx_lit (''style='' @ [dq]) k) (dq # w) = None"
  shows "rx_star (\<lambda>c. c \<noteq> CHR ''>'') (rx_lit (''style='' @ [dq]) k) (t @ dq # w) = None"
  using assms(1)
proof (induction t)
  case Nil
  show ?case using assms(2) by simp
next
  case (Cons c cs)
  then have a: "attr_value cs" and c: "c \<noteq> CHR ''>''"
    by (simp_all add: attr_value_def)
  have "rx_lit (''style='' @ [dq]) k ((c # cs) @ dq # w) = None"
    by (rule lit_attr_none [OF Cons.prems])
  then show ?case
    using Cons.IH [OF a] c by (simp del: rx_lit.simps)
qed

lemma no_style_later:
  assumes "attr_value sv" and "attr_value pd"
  shows "rx_star (\<lambda>c. c \<noteq> CHR ''>'') (rx_lit (''style='' @ [dq]) k)
           (''tyle='' @ [dq] @ sv @ dq # '' d='' @ dq # pd @ dq # ''/>'' @ rest) = None"
proof -
  have 1: "rx_star (\<lambda>c. c \<noteq> CHR ''>'') (rx_lit (''style='' @ [dq]) k) (dq # ''/>'' @ rest) = None"
    by simp
  have 2: "rx_star (\<lambda>c. c \<noteq> CHR ''>'') (rx_lit (''style='' @ [dq]) k) (pd @ dq # ''/>'' @ rest) = None"
    by (rule star_none_attr [OF assms(2) 1])
  have 3: "rx_star (\<lambda>c. c \<noteq> CHR ''>'') (rx_lit (''style='' @ [dq]) k)
      (dq # '' d='' @ dq # pd @ dq # ''/>'' @ rest) = None"
    using 2 by simp
  have 4: "rx_star (\<lambda>c. c \<noteq> CHR ''>'') (rx_lit (''style='' @ [dq]) k)
      (sv @ dq # '' d='' @ dq # pd @ dq # ''/>'' @ rest) = None"
    by (rule star_none_attr [OF assms(1) 3])
  show ?thesis
    using 4 by simp
qed

lemma pathRegex_unfold:
  "rx_match pathRegex k =
     rx_lit ''<path'' (rx_star (\<lambda>c. c \<noteq> CHR ''>'') (rx_lit (''style='' @ [dq])
       (rx_star (\<lambda>c. c \<noteq> dq)
          (rx_match (Lit ''stroke:#'' # hex6 @ [Star (\<lambda>c. c \<noteq> dq), Lit [dq], Star (\<lambda>c. c \<noteq> CHR ''>''), Lit ''/>'']) k))))"
  by (simp add: pathRegex_def)

lemma match_path:
  assumes "attr_value sv" and "attr_value pd"
  shows "rx_match pathRegex Some (path_text sv pd @ rest) =
         (if stroke_hex sv \<noteq> None then Some rest else None)"
proof -
  define K where "K = rx_match (Lit ''stroke:#'' # hex6 @ [Star (\<lambda>c. c \<noteq> dq), Lit [dq], Star (\<lambda>c. c \<noteq> CHR ''>''), Lit ''/>'']) Some"
  have nq: "list_all (\<lambda>c. c \<noteq> dq) sv"
    using assms(1) by (auto simp: attr_value_def list_all_iff)
  have ngt: "list_all (\<lambda>c. c \<noteq> CHR ''>'') ('' d='' @ dq # pd @ [dq])"
    using assms(2) by (auto simp: attr_value_def list_all_iff)
  have inner: "rx_star (\<lambda>c. c \<noteq> dq) K (sv @ dq # '' d='' @ dq # pd @ dq # ''/>'' @ rest) =
      (if stroke_hex sv \<noteq> None then Some rest else None)"
    using style_value_match [OF nq ngt, of rest] by (simp add: K_def)
  have later: "rx_star (\<lambda>c. c \<noteq> CHR ''>'') (rx_lit (''style='' @ [dq]) (rx_star (\<lambda>c. c \<noteq> dq) K))
           (''tyle='' @ [dq] @ sv @ dq # '' d='' @ dq # pd @ dq # ''/>'' @ rest) = None"
    by (rule no_style_later [OF assms])
  have "rx_lit ''<path'' (rx_star (\<lambda>c. c \<noteq> CHR ''>'') (rx_lit (''style='' @ [dq]) (rx_star (\<lambda>c. c \<noteq> dq) K)))
      (path_text sv pd @ rest) = (if stroke_hex sv \<noteq> None then Some rest else None)"
    using inner later by (simp add: path_text_def)
  then show ?thesis
    by (simp only: pathRegex_unfold K_def)
qed

lemma capture_hex6_before:
  "capture_hex6 (s @ dq # y) =
     (if 6 \<le> length s \<and> list_all is_hex (take 6 s) then Some (take 6 s) else None)"
proof (cases "6 \<le> length s")
  case True
  then show ?thesis by (simp add: capture_hex6_def)
next
  case False
  then obtain n where "6 - length s = Suc n"
    by (cases "6 - length s") auto
  then have "dq \<in> set (take 6 (s @ dq # y))"
    by simp
  then have "\<not> list_all is_hex (take 6 (s @ dq # y))"
    using not_hex_dq by (auto simp: list_all_iff)
  then show ?thesis
    using False by (simp add: capture_hex6_def)
qed

lemma stroke_find_head:
  "rx_match strokeRegex capture_hex6 (s @ dq # y) =
     (if prefix ''stroke:#'' s \<and> 6 \<le> length (drop 8 s) \<and> list_all is_hex (take 6 (drop 8 s))
      then Some (take 6 (drop 8 s)) else None)"
proof (cases "prefix ''stroke:#'' s")
  case False
  then have "\<not> prefix ''stroke:#'' (s @ dq # y)"
    using prefix_before [of "''stroke:#''" s dq] by auto
  then show ?thesis
    using False by (simp add: strokeRegex_def rx_lit_prefix)
next
  case True
  then obtain s' where s: "s = ''stroke:#'' @ s'"
    by (auto simp: prefix_def)
  show ?thesis
    using capture_hex6_before [of s' y] by (simp add: s strokeRegex_def)
qed

lemma find_in_value:
  "stroke_hex sv = Some h \<Longrightarrow> rx_find strokeRegex capture_hex6 (sv @ dq # y) = Some h"
proof (induction sv)
  case Nil
  then show ?case by simp
next
  case (Cons c cs)
  have hd: "rx_match strokeRegex capture_hex6 (c # cs @ dq # y) =
     (if prefix ''stroke:#'' (c # cs) \<and> 6 \<le> length (drop 8 (c # cs)) \<and> list_all is_hex (take 6 (drop 8 (c # cs)))
      then Some (take 6 (drop 8 (c # cs))) else None)"
    using stroke_find_head [of "c # cs" y] by (simp only: append_Cons)
  show ?case
  proof (cases "prefix ''stroke:#'' (c # cs) \<and> 6 \<le> length (drop 8 (c # cs)) \<and> list_all is_hex (take 6 (drop 8 (c # cs)))")
    case True
    then have "stroke_hex (c # cs) = Some (take 6 (drop 8 (c # cs)))"
      by (simp only: stroke_hex.simps simp_thms if_True)
    with Cons.prems have "h = take 6 (drop 8 (c # cs))"
      by simp
    then show ?thesis
      using True hd by (simp only: append_Cons rx_find.simps simp_thms if_True option.case)
  next
    case False
    then have "stroke_hex (c # cs) = stroke_hex cs"
      by (simp only: stroke_hex.simps simp_thms if_False)
    with Cons.prems Cons.IH have "rx_find strokeRegex capture_hex6 (cs @ dq # y) = Some h"
      by simp
    then show ?thesis
      using False hd by (simp only: append_Cons rx_find.simps simp_thms if_False option.case)
  qed
qed

lemma stroke_hex_Some: "stroke_hex sv = Some h \<Longrightarrow> length h = 6 \<and> list_all is_hex h"
  by (induction sv) (auto split: if_splits)

lemma isNearWhite_spec:
  assumes "length h = 6" and "list_all is_hex h"
  shows "isNearWhite h = spec_near_white h"
proof -
  from assms(1) obtain r1 r2 g1 g2 b1 b2 where h: "h = [r1, r2, g1, g2, b1, b2]"
    by (auto simp: length_Suc_conv eval_nat_numeral)
  show ?thesis
    using assms(2) by (simp add: h isNearWhite_def ParseInt16_def spec_near_white_def channel_def Let_def)
qed

lemma replace_path_elem:
  assumes "stroke_hex sv = Some h"
  shows "replace_path (path_text sv pd) = (if spec_near_white h then [] else path_text sv pd)"
proof -
  have "rx_find strokeRegex capture_hex6 (sv @ dq # '' d='' @ dq # pd @ dq # ''/>'') = Some h"
    by (rule find_in_value [OF assms])
  then have "rx_find strokeRegex capture_hex6 (path_text sv pd) = Some h"
    by (simp add: path_text_def strokeRegex_def)
  then show ?thesis
    using stroke_hex_Some [OF assms] isNearWhite_spec [of h] by (simp add: replace_path_def)
qed

lemma prefix_of_append: "prefix l (u @ r) \<Longrightarrow> prefix l u \<or> prefix u l"
  by (auto simp: prefix_append)

lemma no_start_here:
  assumes "\<not> prefix (c # cs) ''<path''" and "\<not> prefix ''<path'' (c # cs)"
  shows "rx_match pathRegex Some (c # cs @ rest) = None"
proof -
  have "\<not> prefix ''<path'' ((c # cs) @ rest)"
    using assms prefix_of_append [of "''<path''" "c # cs" rest] by blast
  then show ?thesis
    by (simp only: pathRegex_unfold rx_lit_prefix append_Cons if_False)
qed

lemma Replace_text:
  "plain_text t \<Longrightarrow> ReplaceAllFunc pathRegex f (t @ rest) = t @ ReplaceAllFunc pathRegex f rest"
proof (induction t)
  case Nil
  show ?case by simp
next
  case (Cons c cs)
  then have "rx_match pathRegex Some (c # cs @ rest) = None" and "plain_text cs"
    using no_start_here [of c cs rest] by simp_all
  then show ?case
    using Cons.IH by simp
qed

lemma plain_no_lt: "CHR ''<'' \<notin> set u \<Longrightarrow> plain_text u"
  by (induction u) (auto simp: prefix_Cons)

lemma Replace_path_miss:
  assumes "attr_value sv" and "attr_value pd" and "stroke_hex sv = None"
  shows "ReplaceAllFunc pathRegex f (path_text sv pd @ rest) = path_text sv pd @ ReplaceAllFunc pathRegex f rest"
proof -
  define u where "u = ''path style='' @ [dq] @ sv @ [dq] @ '' d='' @ [dq] @ pd @ [dq] @ ''/>''"
  have p: "path_text sv pd = CHR ''<'' # u"
    by (simp add: path_text_def u_def)
  have "CHR ''<'' \<notin> set u"
    using assms(1,2) by (auto simp: u_def attr_value_def list_all_iff)
  then have "plain_text u"
    by (rule plain_no_lt)
  then have tl: "ReplaceAllFunc pathRegex f (u @ rest) = u @ ReplaceAllFunc pathRegex f rest"
    by (rule Replace_text)
  have "rx_match pathRegex Some (CHR ''<'' # u @ rest) = None"
    using match_path [OF assms(1,2), of rest] assms(3) by (simp add: p)
  then show ?thesis
    using tl by (simp add: p)
qed

lemma Replace_path_hit:
  assumes "attr_value sv" and "attr_value pd" and "stroke_hex sv = Some h"
  shows "ReplaceAllFunc pathRegex replace_path (path_text sv pd @ rest) =
           (if spec_near_white h then [] else path_text sv pd) @ ReplaceAllFunc pathRegex replace_path rest"
proof -
  define u where "u = ''path style='' @ [dq] @ sv @ [dq] @ '' d='' @ [dq] @ pd @ [dq] @ ''/>''"
  have p: "path_text sv pd = CHR ''<'' # u"
    by (simp add: path_text_def u_def)
  have m: "rx_match pathRegex Some (CHR ''<'' # u @ rest) = Some rest"
    using match_path [OF assms(1,2), of rest] assms(3) by (simp add: p)
  have "ReplaceAllFunc pathRegex replace_path (CHR ''<'' # u @ rest) =
      replace_path (CHR ''<'' # u) @ ReplaceAllFunc pathRegex replace_path rest"
    by (simp add: m)
  then show ?thesis
    using replace_path_elem [OF assms(3), of pd] by (simp add: p)
qed

lemma filter_chunks:
  "list_all wf_chunk doc \<Longrightarrow>
   ReplaceAllFunc pathRegex replace_path (render_doc doc) = render_doc (filter (\<lambda>c. \<not> spec_removed c) doc)"
proof (induction doc)
  case Nil
  show ?case by (simp add: render_doc_def)
next
  case (Cons ch doc)
  then have IH: "ReplaceAllFunc pathRegex replace_path (render_doc doc) = render_doc (filter (\<lambda>c. \<not> spec_removed c) doc)"
    by simp
  show ?case
  proof (cases ch)
    case (Text t)
    then show ?thesis
      using Cons.prems IH Replace_text [of t replace_path "render_doc doc"]
      by (simp add: render_doc_def)
  next
    case (PathElem sv pd)
    with Cons.prems have a: "attr_value sv" "attr_value pd"
      by simp_all
    show ?thesis
    proof (cases "stroke_hex sv")
      case None
      then show ?thesis
        using PathElem IH Replace_path_miss [OF a None, of replace_path "render_doc doc"]
        by (simp add: render_doc_def)
    next
      case (Some h)
      then show ?thesis
        using PathElem IH Replace_path_hit [OF a Some, of "render_doc doc"]
        by (simp add: render_doc_def)
    qed
  qed
qed

lemma stroke_hex_head:
  "list_all is_hex [r1, r2, g1, g2, b1, b2] \<Longrightarrow>
   stroke_hex (''stroke:#'' @ [r1, r2, g1, g2, b1, b2] @ t) = Some [r1, r2, g1, g2, b1, b2]"
  by simp

lemmas doc_eval = render_doc_def path_text_def style_of_def svg_open_def attr_value_def
  spec_near_white_def channel_def hex_val_def is_hex_def is_digit_def byte_def

text \<open>
  \<^bold>\<open>Claim C4\<close> (the path filter). On a document of the tracer's form the
  filter removes exactly the path elements whose style names a colour of six hexadecimal
  digits, \<open>stroke:#RRGGBB\<close>, with each of the three channels above 240, and leaves
  everything else as it is, byte for byte; the file is rewritten with that text. For six
  hexadecimal digits, the code's \<open>isNearWhite\<close> is that threshold on the channels. A path
  whose style names no such colour is passed through unchanged.
\<close>

theorem C4_filterWhitePaths:
  "(list_all wf_chunk doc \<longrightarrow>
      filterWhitePaths_bytes (render_doc doc) = render_doc (filter (\<lambda>c. \<not> spec_removed c) doc) \<and>
      filterWhitePaths None (fs(svgPath \<mapsto> render_doc doc)) svgPath =
        (None, fs(svgPath \<mapsto> render_doc (filter (\<lambda>c. \<not> spec_removed c) doc))))
   \<and> (list_all is_hex [r1, r2, g1, g2, b1, b2] \<longrightarrow>
        spec_removed (PathElem (''stroke:#'' @ [r1, r2, g1, g2, b1, b2] @ t) pd) =
          (240 < channel r1 r2 \<and> 240 < channel g1 g2 \<and> 240 < channel b1 b2) \<and>
        isNearWhite [r1, r2, g1, g2, b1, b2] =
          (240 < channel r1 r2 \<and> 240 < channel g1 g2 \<and> 240 < channel b1 b2))
   \<and> (attr_value sv \<and> attr_value pd' \<and> stroke_hex sv = None \<longrightarrow>
        filterWhitePaths_bytes (path_text sv pd') = path_text sv pd')"
proof (intro conjI impI)
  assume wf: "list_all wf_chunk doc"
  then show bytes: "filterWhitePaths_bytes (render_doc doc) = render_doc (filter (\<lambda>c. \<not> spec_removed c) doc)"
    unfolding filterWhitePaths_bytes_def by (rule filter_chunks)
  then show "filterWhitePaths None (fs(svgPath \<mapsto> render_doc doc)) svgPath =
        (None, fs(svgPath \<mapsto> render_doc (filter (\<lambda>c. \<not> spec_removed c) doc)))"
    by (simp add: filterWhitePaths_def)
next
  assume hex: "list_all is_hex [r1, r2, g1, g2, b1, b2]"
  show "spec_removed (PathElem (''stroke:#'' @ [r1, r2, g1, g2, b1, b2] @ t) pd) =
          (240 < channel r1 r2 \<and> 240 < channel g1 g2 \<and> 240 < channel b1 b2)"
    by (simp only: spec_removed.simps stroke_hex_head [OF hex] option.case) (simp add: spec_near_white_def)
  show "isNearWhite [r1, r2, g1, g2, b1, b2] =
          (240 < channel r1 r2 \<and> 240 < channel g1 g2 \<and> 240 < channel b1 b2)"
    using isNearWhite_spec [of "[r1, r2, g1, g2, b1, b2]"] hex by (simp add: spec_near_white_def)
next
  assume a: "attr_value sv \<and> attr_value pd' \<and> stroke_hex sv = None"
  then have "ReplaceAllFunc pathRegex replace_path (path_text sv pd' @ []) = path_text sv pd' @ ReplaceAllFunc pathRegex replace_path []"
    by (intro Replace_path_miss) simp_all
  then show "filterWhitePaths_bytes (path_text sv pd') = path_text sv pd'"
    by (simp add: filterWhitePaths_bytes_def)
qed

text \<open>
  On the samples: the traced document of the scenario loses its \<open>#fefefe\<close> path and keeps
  the black one; of the eight colours \<open>#fefefe\<close>, \<open>#f5f5f5\<close> and \<open>#F1F1F1\<close> (each
  channel 241) are removed, and \<open>#000000\<close>, \<open>#f0e0e0\<close>, \<open>#fff0ff\<close> (one channel exactly
  240), \<open>red\<close> and \<open>#fff\<close> stay.
\<close>

theorem C4_filterWhitePaths_witness:
  "filterWhitePaths_bytes doc_traced = doc_filtered
   \<and> filterWhitePaths_bytes (render_doc doc_colors) = render_doc doc_colors_kept
   \<and> filterWhitePaths None [''job/output.svg'' \<mapsto> doc_traced] ''job/output.svg'' =
        (None, [''job/output.svg'' \<mapsto> doc_filtered])
   \<and> \<not> isNearWhite ''f0ffff'' \<and> isNearWhite ''f1f1f1''
   \<and> filterWhitePaths_bytes (path_text ''stroke:rgb(255,255,255)'' ''M0 0'') = path_text ''stroke:rgb(255,255,255)'' ''M0 0''"
proof -
  have wf1: "list_all wf_chunk doc_sample"
    by (simp add: doc_sample_def doc_eval)
  have r1: "render_doc doc_sample = doc_traced"
    by (simp add: doc_sample_def doc_traced_def path_elem_def doc_eval)
  have k1: "render_doc (filter (\<lambda>c. \<not> spec_removed c) doc_sample) = doc_filtered"
    by (simp add: doc_sample_def doc_filtered_def path_elem_def doc_eval)
  have wf2: "list_all wf_chunk doc_colors"
    by (simp add: doc_colors_def doc_eval)
  have k2: "filter (\<lambda>c. \<not> spec_removed c) doc_colors = doc_colors_kept"
    by (simp add: doc_colors_def doc_colors_kept_def doc_eval)
  have h1: "list_all is_hex ''f0ffff''" and h2: "list_all is_hex ''f1f1f1''"
    by (simp_all add: is_hex_def is_digit_def byte_def)
  have a: "attr_value ''stroke:rgb(255,255,255)'' \<and> attr_value ''M0 0'' \<and> stroke_hex ''stroke:rgb(255,255,255)'' = None"
    by (simp add: doc_eval)
  from C4_filterWhitePaths [of doc_sample "Map.empty" "''job/output.svg''" "CHR ''f''" "CHR ''0''" "CHR ''f''" "CHR ''f''" "CHR ''f''" "CHR ''f''" "[]" "[]" "''stroke:rgb(255,255,255)''" "''M0 0''"]
       C4_filterWhitePaths [of doc_colors "Map.empty" "[]" "CHR ''f''" "CHR ''1''" "CHR ''f''" "CHR ''1''" "CHR ''f''" "CHR ''1''" "[]" "[]" "[]" "[]"]
       wf1 wf2 h1 h2 a
  show ?thesis
    by (simp add: r1 k1 k2 channel_def hex_val_def is_hex_def is_digit_def byte_def)
qed

text \<open>
  The claim as it is written fails on the code, whose pattern only matches a self-closing
  element with the colour in a \<open>style\<close> attribute: a white path with an end tag, and a
  white path whose stroke is an attribute of its own, are stroked paths with every channel
  at 255, and the filter keeps both.
\<close>

theorem C4_counterexample:
  "filterWhitePaths_bytes path_end_tag = path_end_tag
   \<and> filterWhitePaths_bytes path_stroke_attr = path_stroke_attr
   \<and> isNearWhite ''ffffff''"
  by (simp add: filterWhitePaths_bytes_def path_end_tag_def path_stroke_attr_def pathRegex_def hex6_def
      isNearWhite_def ParseInt16_def hex_val_def is_hex_def is_digit_def byte_def)

end
